theory Spec2Isabelle
  imports Complex_Main
begin

section \<open>Echo synthesis for waveform pairs: a model of \<open>add_echoes\<close>\<close>

text \<open>
  The development embeds \<^verbatim>\<open>pycbc/waveform/echoeswaveformPComega_pycbc.py\<close>.
  Samples are modelled as real numbers (the arithmetic of the source is read as exact),
  arrays as lists, Python integers as \<open>int\<close>, and every exception the source can raise
  as a value of \<open>pyerr\<close> on the left of a sum.  Console output is a list of lines
  returned next to the result.
\<close>

subsection \<open>Errors and containers\<close>

datatype pyerr = ValueError | IndexError | ZeroDivisionError

text \<open>
  Modelled from the spec: the time-series container (\<^verbatim>\<open>pycbc.types.TimeSeries\<close>) is not
  part of the source file.  The spec describes it as an ordered sample sequence with a
  uniform sample spacing and a start time; \<open>sample_times\<close> are the start time plus
  multiples of the spacing.
\<close>

record timeseries =
  data :: "real list"
  delta_t :: real
  epoch :: real

text \<open>
  Modelled from the spec: the sample times of a series (\<^verbatim>\<open>sample_times\<close> of the
  container), one per sample, from the start time on in steps of the spacing.
\<close>

definition sample_times :: "timeseries \<Rightarrow> real list" where
  "sample_times h = map (\<lambda>i. epoch h + real i * delta_t h) [0..<length (data h)]"

subsection \<open>Array primitives used by the source\<close>

text \<open>
  Elementwise binary operations on one-dimensional arrays follow the broadcasting rule:
  equal lengths combine pointwise, an operand of length one is stretched, anything
  else raises \<open>ValueError\<close>.
\<close>

definition np_broadcast2 :: "('a \<Rightarrow> 'b \<Rightarrow> 'c) \<Rightarrow> 'a list \<Rightarrow> 'b list \<Rightarrow> pyerr + 'c list" where
  "np_broadcast2 f xs ys =
     (if length xs = length ys then Inr (map2 f xs ys)
      else if length xs = 1 then Inr (map (f (hd xs)) ys)
      else if length ys = 1 then Inr (map (\<lambda>x. f x (hd ys)) xs)
      else Inl ValueError)"

text \<open>Reading an index of an array: negative indices count from the end.\<close>

definition py_index :: "'a list \<Rightarrow> int \<Rightarrow> pyerr + 'a" where
  "py_index xs i =
     (if 0 \<le> i \<and> i < int (length xs) then Inr (xs ! nat i)
      else if i < 0 \<and> - int (length xs) \<le> i then Inr (xs ! nat (int (length xs) + i))
      else Inl IndexError)"

text \<open>
  \<^verbatim>\<open>np.argmax\<close>: the index of the first occurrence of the maximum; an empty array
  raises \<open>ValueError\<close>.  The scan keeps the best value seen so far and its index and
  replaces them only on a strictly larger value.
\<close>

fun argmax_scan :: "real \<Rightarrow> nat \<Rightarrow> nat \<Rightarrow> real list \<Rightarrow> nat" where
  "argmax_scan best bi i [] = bi"
| "argmax_scan best bi i (x # xs) =
     (if best < x then argmax_scan x i (Suc i) xs else argmax_scan best bi (Suc i) xs)"

definition np_argmax :: "real list \<Rightarrow> pyerr + nat" where
  "np_argmax xs = (case xs of [] \<Rightarrow> Inl ValueError | x # r \<Rightarrow> Inr (argmax_scan x 0 1 r))"

subsection \<open>Merger time (source lines 54 to 61)\<close>

text \<open>
  \<^verbatim>\<open>template = hp_numpy + 1j*hc_numpy\<close> and
  \<^verbatim>\<open>t_merger = sampletimesarray[np.argmax(np.absolute(template))]\<close>.
\<close>

definition template :: "timeseries \<Rightarrow> timeseries \<Rightarrow> pyerr + complex list" where
  "template hp hc = np_broadcast2 Complex (data hp) (data hc)"

definition merger_time :: "complex list \<Rightarrow> real list \<Rightarrow> pyerr + real" where
  "merger_time tmpl sampletimesarray =
     (case np_argmax (map cmod tmpl) of
        Inl e \<Rightarrow> Inl e
      | Inr k \<Rightarrow> py_index sampletimesarray (int k))"

subsection \<open>Angular frequency with zero-run correction (source lines 63 to 87)\<close>

text \<open>
  Modelled from the spec: \<^verbatim>\<open>trim_zeros\<close> of the container is not part of the source
  file; the spec says that leading and trailing exact-zero samples are trimmed from each
  signal independently.  Spacing and start time are left as they are.
\<close>

definition trim_zeros :: "timeseries \<Rightarrow> timeseries" where
  "trim_zeros h =
     h\<lparr>data := rev (dropWhile (\<lambda>x. x = 0) (rev (dropWhile (\<lambda>x. x = 0) (data h))))\<rparr>"

text \<open>
  The frequency estimator \<^verbatim>\<open>utils.frequency_from_polarizations\<close> is not part of the
  source file either; it is a parameter \<open>fe\<close> of the model, returning the estimate or an
  error.  \<^verbatim>\<open>omega = 2. * np.pi * utils.frequency_from_polarizations(...)\<close>.
\<close>

definition raw_omega ::
  "(timeseries \<Rightarrow> timeseries \<Rightarrow> pyerr + real list) \<Rightarrow> timeseries \<Rightarrow> timeseries \<Rightarrow> pyerr + real list" where
  "raw_omega fe hp hc =
     (case fe (trim_zeros hp) (trim_zeros hc) of
        Inl e \<Rightarrow> Inl e
      | Inr f \<Rightarrow> Inr (map (\<lambda>x. 2 * pi * x) f))"

text \<open>
  \<^verbatim>\<open>while hp[k] == 0: k += 1\<close>: the index walks upwards from \<open>i\<close>; reading the index
  \<open>length xs\<close> raises \<open>IndexError\<close>.
\<close>

function zero_scan :: "real list \<Rightarrow> nat \<Rightarrow> pyerr + nat" where
  "zero_scan xs i =
     (if i < length xs then (if xs ! i = 0 then zero_scan xs (Suc i) else Inr i)
      else Inl IndexError)"
  by pat_completeness auto
termination
  by (relation "measure (\<lambda>(xs, i). length xs - i)") auto

declare zero_scan.simps [simp del]

text \<open>\<^verbatim>\<open>a[:m] = v\<close> for a scalar \<open>v\<close>: the slice is clipped to the array.\<close>

definition slice_fill :: "real list \<Rightarrow> nat \<Rightarrow> real \<Rightarrow> real list" where
  "slice_fill xs m v = replicate (min m (length xs)) v @ drop m xs"

text \<open>
  Modelled from the spec: \<^verbatim>\<open>resize\<close> of the container is not part of the source file;
  the spec has the estimate cut or padded to the sample count, the padding being
  zeros.  \<^verbatim>\<open>omega.resize(n)\<close> on an array of \<open>n\<close> entries leaves it as it is.
\<close>

definition resize :: "real list \<Rightarrow> nat \<Rightarrow> real list" where
  "resize xs n = take n xs @ replicate (n - length xs) 0"

text \<open>The test \<^verbatim>\<open>hp[0] == 0 and hc[0] == 0\<close>; \<^verbatim>\<open>and\<close> reads \<open>hc[0]\<close> only when
  the first comparison holds.\<close>

definition both_start_zero :: "timeseries \<Rightarrow> timeseries \<Rightarrow> pyerr + bool" where
  "both_start_zero hp hc =
     (case py_index (data hp) 0 of
        Inl e \<Rightarrow> Inl e
      | Inr a \<Rightarrow>
          if a = 0 then (case py_index (data hc) 0 of Inl e \<Rightarrow> Inl e | Inr b \<Rightarrow> Inr (b = 0))
          else Inr False)"

text \<open>The body of the branch (source lines 73 to 85), with the lines it prints.\<close>

definition zero_run_correction ::
  "timeseries \<Rightarrow> timeseries \<Rightarrow> real list \<Rightarrow> nat \<Rightarrow> string list \<times> (pyerr + real list)" where
  "zero_run_correction hp hc omega n =
     (case zero_scan (data hp) 0 of
        Inl e \<Rightarrow> ([''Active''], Inl e)
      | Inr first_zero_index_hp \<Rightarrow>
          (case zero_scan (data hc) 0 of
             Inl e \<Rightarrow> ([''Active''], Inl e)
           | Inr first_zero_index_hc \<Rightarrow>
               (let out = ''Active'' #
                      (if first_zero_index_hp \<noteq> first_zero_index_hc
                       then [''Polarisations have unequal number of leading zeroes.'']
                       else []);
                    m = max first_zero_index_hp first_zero_index_hc
                in case py_index omega (int m) of
                     Inl e \<Rightarrow> (out, Inl e)
                   | Inr v \<Rightarrow> (out, Inr (slice_fill (replicate n 0) m v)))))"

definition angular_frequency ::
  "(timeseries \<Rightarrow> timeseries \<Rightarrow> pyerr + real list) \<Rightarrow> timeseries \<Rightarrow> timeseries \<Rightarrow> nat
     \<Rightarrow> string list \<times> (pyerr + real list)" where
  "angular_frequency fe hp hc n =
     (case raw_omega fe hp hc of
        Inl e \<Rightarrow> ([], Inl e)
      | Inr omega \<Rightarrow>
          (case both_start_zero hp hc of
             Inl e \<Rightarrow> ([], Inl e)
           | Inr False \<Rightarrow> ([], Inr (resize omega n))
           | Inr True \<Rightarrow>
               (case zero_run_correction hp hc omega n of
                  (out, Inl e) \<Rightarrow> (out, Inl e)
                | (out, Inr omega_temp) \<Rightarrow> (out, Inr (resize omega_temp n)))))"

subsection \<open>Taper (source lines 11 to 17 and 89 to 99)\<close>

definition truncfunc :: "real list \<Rightarrow> real \<Rightarrow> real \<Rightarrow> real list \<Rightarrow> pyerr + real list" where
  "truncfunc t t0 t_merger omega_of_t =
     (case np_broadcast2 times (map (\<lambda>w. 0.5 * w) omega_of_t) (map (\<lambda>x. x - t_merger - t0) t) of
        Inl e \<Rightarrow> Inl e
      | Inr arg \<Rightarrow> Inr (map (\<lambda>z. 0.5 * (1 + tanh z)) arg))"

definition taper_seed ::
  "timeseries \<Rightarrow> timeseries \<Rightarrow> real \<Rightarrow> real \<Rightarrow> real list \<Rightarrow> pyerr + (real list \<times> real list)" where
  "taper_seed hp hc t0trunc t_merger omega =
     (case truncfunc (sample_times hp) t0trunc t_merger omega of
        Inl e \<Rightarrow> Inl e
      | Inr tapercoeff \<Rightarrow>
          (case np_broadcast2 times (data hp) tapercoeff of
             Inl e \<Rightarrow> Inl e
           | Inr hp_numpy \<Rightarrow>
               (case np_broadcast2 times (data hc) tapercoeff of
                  Inl e \<Rightarrow> Inl e
                | Inr hc_numpy \<Rightarrow> Inr (hp_numpy, hc_numpy))))"

subsection \<open>Superposition of the echoes (source lines 101 to 139)\<close>

text \<open>\<^verbatim>\<open>np.zeros(k)\<close> raises \<open>ValueError\<close> for a negative size.\<close>

definition np_zeros :: "int \<Rightarrow> pyerr + real list" where
  "np_zeros k = (if k < 0 then Inl ValueError else Inr (replicate (nat k) 0))"

text \<open>\<^verbatim>\<open>int(np.ceil((t_echo + n_echoes * del_t_echo) * 1.0/timestep))\<close>, for a
  non-zero \<open>timestep\<close>.\<close>

definition echo_extent :: "real \<Rightarrow> int \<Rightarrow> real \<Rightarrow> real \<Rightarrow> int" where
  "echo_extent t_echo n_echoes del_t_echo timestep =
     \<lceil>(t_echo + of_int n_echoes * del_t_echo) * 1 / timestep\<rceil>"

text \<open>The built-in \<^verbatim>\<open>round\<close> of Python 3: to the nearest integer, a tie to the even
  one.\<close>

definition py_round :: "real \<Rightarrow> int" where
  "py_round x =
     (let f = \<lfloor>x\<rfloor>; d = x - of_int f
      in if d < 1 / 2 then f else if 1 / 2 < d then f + 1 else if even f then f else f + 1)"

definition first_offset :: "real \<Rightarrow> real \<Rightarrow> int" where
  "first_offset t_echo timestep = py_round (t_echo * 1 / timestep)"

definition echo_offset :: "real \<Rightarrow> real \<Rightarrow> nat \<Rightarrow> real \<Rightarrow> int" where
  "echo_offset t_echo del_t_echo j timestep = py_round ((t_echo + del_t_echo * real j) * 1 / timestep)"

text \<open>
  The bounds of the slice \<^verbatim>\<open>a[i:j]\<close> of an array of \<open>n\<close> entries: a negative index
  counts from the end, and both ends are clipped to the array.
\<close>

definition slice_bound :: "nat \<Rightarrow> int \<Rightarrow> nat" where
  "slice_bound n i = (if i < 0 then nat (max 0 (i + int n)) else nat (min i (int n)))"

text \<open>
  \<^verbatim>\<open>buf[i:j] += rhs\<close>: the right-hand side must have the length of the slice, or length
  one; otherwise the addition raises \<open>ValueError\<close>.  The entries outside the slice stay.
\<close>

definition slice_iadd :: "real list \<Rightarrow> int \<Rightarrow> int \<Rightarrow> real list \<Rightarrow> pyerr + real list" where
  "slice_iadd buf i j rhs =
     (let s = slice_bound (length buf) i; e = slice_bound (length buf) j; m = e - s
      in if length rhs = m then
           Inr (take s buf @ map2 (+) (take m (drop s buf)) rhs @ drop (s + m) buf)
         else if length rhs = 1 then
           Inr (take s buf @ map (\<lambda>x. x + hd rhs) (take m (drop s buf)) @ drop (s + m) buf)
         else Inl ValueError)"

text \<open>The loop \<^verbatim>\<open>for j in range(1, int(n_echoes))\<close>, over the list of its indices.\<close>

fun echo_loop ::
  "real list \<Rightarrow> real list \<Rightarrow> nat \<Rightarrow> real \<Rightarrow> real \<Rightarrow> real \<Rightarrow> real \<Rightarrow> real \<Rightarrow> nat list
     \<Rightarrow> real list \<times> real list \<Rightarrow> pyerr + (real list \<times> real list)" where
  "echo_loop hp_numpy hc_numpy len t_echo del_t_echo amplitude gamma timestep [] (hparray, hcarray) =
     Inr (hparray, hcarray)"
| "echo_loop hp_numpy hc_numpy len t_echo del_t_echo amplitude gamma timestep (j # js) (hparray, hcarray) =
     (let del_t_echo_steps = echo_offset t_echo del_t_echo j timestep
      in case slice_iadd hparray del_t_echo_steps (del_t_echo_steps + int len)
                (map (\<lambda>x. x * amplitude * gamma ^ j * (- 1) ^ (j + 1)) hp_numpy) of
           Inl e \<Rightarrow> Inl e
         | Inr hparray' \<Rightarrow>
             (case slice_iadd hcarray del_t_echo_steps (del_t_echo_steps + int len)
                     (map (\<lambda>x. x * amplitude * gamma ^ j * (- 1) ^ (j + 1)) hc_numpy) of
                Inl e \<Rightarrow> Inl e
              | Inr hcarray' \<Rightarrow>
                  echo_loop hp_numpy hc_numpy len t_echo del_t_echo amplitude gamma timestep js
                    (hparray', hcarray')))"

definition superpose ::
  "real list \<Rightarrow> real list \<Rightarrow> nat \<Rightarrow> nat \<Rightarrow> real \<Rightarrow> real \<Rightarrow> int \<Rightarrow> real \<Rightarrow> real \<Rightarrow> real
     \<Rightarrow> pyerr + (real list \<times> real list)" where
  "superpose hp_numpy hc_numpy len_hp len_hc t_echo del_t_echo n_echoes amplitude gamma timestep =
     (if timestep = 0 then Inl ZeroDivisionError
      else
        case np_zeros (int len_hp + echo_extent t_echo n_echoes del_t_echo timestep) of
          Inl e \<Rightarrow> Inl e
        | Inr hparray \<Rightarrow>
        (case np_zeros (int len_hc + echo_extent t_echo n_echoes del_t_echo timestep) of
          Inl e \<Rightarrow> Inl e
        | Inr hcarray \<Rightarrow>
        (let t_echo_steps = first_offset t_echo timestep
         in case slice_iadd hparray t_echo_steps (t_echo_steps + int (length hp_numpy))
                   (map (\<lambda>x. x * amplitude * - 1) hp_numpy) of
              Inl e \<Rightarrow> Inl e
            | Inr hparray' \<Rightarrow>
            (case slice_iadd hcarray t_echo_steps (t_echo_steps + int (length hc_numpy))
                    (map (\<lambda>x. x * amplitude * - 1) hc_numpy) of
               Inl e \<Rightarrow> Inl e
             | Inr hcarray' \<Rightarrow>
                 echo_loop hp_numpy hc_numpy len_hp t_echo del_t_echo amplitude gamma timestep
                   [1..<nat n_echoes] (hparray', hcarray')))))"

subsection \<open>The entry point (source lines 20 to 144)\<close>

definition add_echoes ::
  "(timeseries \<Rightarrow> timeseries \<Rightarrow> pyerr + real list) \<Rightarrow> timeseries \<Rightarrow> timeseries \<Rightarrow> real \<Rightarrow> real
     \<Rightarrow> real \<Rightarrow> int \<Rightarrow> real \<Rightarrow> real \<Rightarrow> real option
     \<Rightarrow> string list \<times> (pyerr + (timeseries \<times> timeseries))" where
  "add_echoes fe hp hc t0trunc t_echo del_t_echo n_echoes amplitude gamma timestep_arg =
     (let timestep = (case timestep_arg of None \<Rightarrow> delta_t hp | Some ts \<Rightarrow> ts)
      in case template hp hc of
           Inl e \<Rightarrow> ([], Inl e)
         | Inr tmpl \<Rightarrow>
         (case merger_time tmpl (sample_times hp) of
           Inl e \<Rightarrow> ([], Inl e)
         | Inr t_merger \<Rightarrow>
         (case angular_frequency fe hp hc (length tmpl) of
           (out, Inl e) \<Rightarrow> (out, Inl e)
         | (out, Inr omega) \<Rightarrow>
         (case taper_seed hp hc t0trunc t_merger omega of
           Inl e \<Rightarrow> (out, Inl e)
         | Inr (hp_numpy, hc_numpy) \<Rightarrow>
         (case superpose hp_numpy hc_numpy (length (data hp)) (length (data hc))
                 t_echo del_t_echo n_echoes amplitude gamma timestep of
           Inl e \<Rightarrow> (out, Inl e)
         | Inr (hparray, hcarray) \<Rightarrow>
         (case py_index (sample_times hp) 0 of
           Inl e \<Rightarrow> (out, Inl e)
         | Inr epoch_hp \<Rightarrow>
         (case py_index (sample_times hc) 0 of
           Inl e \<Rightarrow> (out, Inl e)
         | Inr epoch_hc \<Rightarrow>
             (out, Inr (\<lparr>data = hparray, delta_t = timestep, epoch = epoch_hp\<rparr>,
                        \<lparr>data = hcarray, delta_t = timestep, epoch = epoch_hc\<rparr>)))))))))"

subsection \<open>The same call on a store of arrays\<close>

text \<open>
  The definitions above pass array values around.  To speak about mutation, the
  statements of \<^verbatim>\<open>add_echoes\<close> are modelled once more on a store: every array object
  lives at an address, a Python name holds an address, and a time series refers to the
  address of its samples.  \<^verbatim>\<open>np.zeros\<close> and the arithmetic on arrays allocate a new
  array; slice assignment, \<^verbatim>\<open>resize\<close> and \<^verbatim>\<open>+=\<close> on a slice overwrite the array at
  the address they are applied to; \<^verbatim>\<open>print\<close> appends a line to the console.
  \<^verbatim>\<open>hp.numpy()\<close> is the address of the samples of \<open>hp\<close> itself, not a copy.  The
  frequency estimator is given the values of the trimmed inputs and has no access to
  the store.
\<close>

record store =
  arrays :: "real list list"
  console :: "string list"

record tsobj =
  samples_at :: nat
  spacing :: real
  start :: real

text \<open>The time series a reference denotes in a store.\<close>

definition deref :: "store \<Rightarrow> tsobj \<Rightarrow> timeseries" where
  "deref s h = \<lparr>data = arrays s ! samples_at h, delta_t = spacing h, epoch = start h\<rparr>"

text \<open>A new array at the next free address; overwriting the array at an address; printing.\<close>

definition alloc :: "real list \<Rightarrow> store \<Rightarrow> store \<times> nat" where
  "alloc xs s = (s\<lparr>arrays := arrays s @ [xs]\<rparr>, length (arrays s))"

definition put :: "nat \<Rightarrow> real list \<Rightarrow> store \<Rightarrow> store" where
  "put a xs s = s\<lparr>arrays := (arrays s)[a := xs]\<rparr>"

definition emit :: "string \<Rightarrow> store \<Rightarrow> store" where
  "emit line s = s\<lparr>console := console s @ [line]\<rparr>"

text \<open>
  Source lines 73 to 85: \<open>omega\<close> and \<open>omega_temp\<close> are addresses; the slice assignment
  writes to \<open>omega_temp\<close>, and the name \<open>omega\<close> holds the address of \<open>omega_temp\<close>
  afterwards, which is the result.
\<close>

definition zero_run_correction_st ::
  "tsobj \<Rightarrow> tsobj \<Rightarrow> nat \<Rightarrow> nat \<Rightarrow> store \<Rightarrow> store \<times> (pyerr + nat)" where
  "zero_run_correction_st hp hc omega omega_temp s =
     (let s1 = emit ''Active'' s
      in case zero_scan (arrays s1 ! samples_at hp) 0 of
           Inl e \<Rightarrow> (s1, Inl e)
         | Inr first_zero_index_hp \<Rightarrow>
             (case zero_scan (arrays s1 ! samples_at hc) 0 of
                Inl e \<Rightarrow> (s1, Inl e)
              | Inr first_zero_index_hc \<Rightarrow>
                  (let s2 = (if first_zero_index_hp \<noteq> first_zero_index_hc
                             then emit ''Polarisations have unequal number of leading zeroes.'' s1
                             else s1);
                       m = max first_zero_index_hp first_zero_index_hc
                   in case py_index (arrays s2 ! omega) (int m) of
                        Inl e \<Rightarrow> (s2, Inl e)
                      | Inr v \<Rightarrow>
                          (put omega_temp (slice_fill (arrays s2 ! omega_temp) m v) s2,
                           Inr omega_temp))))"

text \<open>Source lines 65 to 87; the result is the address the name \<open>omega\<close> holds, resized in
  place.\<close>

definition angular_frequency_st ::
  "(timeseries \<Rightarrow> timeseries \<Rightarrow> pyerr + real list) \<Rightarrow> tsobj \<Rightarrow> tsobj \<Rightarrow> nat \<Rightarrow> store
     \<Rightarrow> store \<times> (pyerr + nat)" where
  "angular_frequency_st fe hp hc n s =
     (case raw_omega fe (deref s hp) (deref s hc) of
        Inl e \<Rightarrow> (s, Inl e)
      | Inr om \<Rightarrow>
          (let (s1, omega) = alloc om s;
               (s2, omega_temp) = alloc (replicate n 0) s1
           in case both_start_zero (deref s2 hp) (deref s2 hc) of
                Inl e \<Rightarrow> (s2, Inl e)
              | Inr b \<Rightarrow>
                  (case (if b then zero_run_correction_st hp hc omega omega_temp s2
                         else (s2, Inr omega)) of
                     (s3, Inl e) \<Rightarrow> (s3, Inl e)
                   | (s3, Inr omega') \<Rightarrow>
                       (put omega' (resize (arrays s3 ! omega') n) s3, Inr omega'))))"

text \<open>
  Source lines 90 to 99: \<^verbatim>\<open>hp_numpy = (hp_numpy * tapercoeff)\<close> reads the samples of the
  input and binds the name to a new array; the result is the pair of new addresses.
\<close>

definition taper_seed_st ::
  "tsobj \<Rightarrow> tsobj \<Rightarrow> real \<Rightarrow> real \<Rightarrow> nat \<Rightarrow> nat \<Rightarrow> store \<Rightarrow> store \<times> (pyerr + nat \<times> nat)" where
  "taper_seed_st hp hc t0trunc t_merger sampletimesarray omega s =
     (case truncfunc (arrays s ! sampletimesarray) t0trunc t_merger (arrays s ! omega) of
        Inl e \<Rightarrow> (s, Inl e)
      | Inr tc \<Rightarrow>
          (let (s1, tapercoeff) = alloc tc s
           in case np_broadcast2 times (arrays s1 ! samples_at hp) (arrays s1 ! tapercoeff) of
                Inl e \<Rightarrow> (s1, Inl e)
              | Inr p \<Rightarrow>
                  (let (s2, hp_numpy) = alloc p s1
                   in case np_broadcast2 times (arrays s2 ! samples_at hc) (arrays s2 ! tapercoeff) of
                        Inl e \<Rightarrow> (s2, Inl e)
                      | Inr c \<Rightarrow>
                          (let (s3, hc_numpy) = alloc c s2 in (s3, Inr (hp_numpy, hc_numpy))))))"

text \<open>\<^verbatim>\<open>buf[i:j] += rhs\<close> on the array at address \<open>a\<close>.\<close>

definition iadd_st :: "nat \<Rightarrow> int \<Rightarrow> int \<Rightarrow> real list \<Rightarrow> store \<Rightarrow> store \<times> (pyerr + unit)" where
  "iadd_st a i j rhs s =
     (case slice_iadd (arrays s ! a) i j rhs of
        Inl e \<Rightarrow> (s, Inl e)
      | Inr b \<Rightarrow> (put a b s, Inr ()))"

fun echo_loop_st ::
  "nat \<Rightarrow> nat \<Rightarrow> nat \<Rightarrow> real \<Rightarrow> real \<Rightarrow> real \<Rightarrow> real \<Rightarrow> real \<Rightarrow> nat list \<Rightarrow> nat \<Rightarrow> nat
     \<Rightarrow> store \<Rightarrow> store \<times> (pyerr + unit)" where
  "echo_loop_st hp_numpy hc_numpy len t_echo del_t_echo amplitude gamma timestep [] hparray hcarray s =
     (s, Inr ())"
| "echo_loop_st hp_numpy hc_numpy len t_echo del_t_echo amplitude gamma timestep (j # js) hparray hcarray s =
     (let del_t_echo_steps = echo_offset t_echo del_t_echo j timestep
      in case iadd_st hparray del_t_echo_steps (del_t_echo_steps + int len)
                (map (\<lambda>x. x * amplitude * gamma ^ j * (- 1) ^ (j + 1)) (arrays s ! hp_numpy)) s of
           (s1, Inl e) \<Rightarrow> (s1, Inl e)
         | (s1, Inr u) \<Rightarrow>
             (case iadd_st hcarray del_t_echo_steps (del_t_echo_steps + int len)
                     (map (\<lambda>x. x * amplitude * gamma ^ j * (- 1) ^ (j + 1)) (arrays s1 ! hc_numpy)) s1 of
                (s2, Inl e) \<Rightarrow> (s2, Inl e)
              | (s2, Inr u) \<Rightarrow>
                  echo_loop_st hp_numpy hc_numpy len t_echo del_t_echo amplitude gamma timestep js
                    hparray hcarray s2))"

text \<open>Source lines 103 to 139: the two buffers are new arrays, every echo is added to them
  in place.\<close>

definition superpose_st ::
  "nat \<Rightarrow> nat \<Rightarrow> nat \<Rightarrow> nat \<Rightarrow> real \<Rightarrow> real \<Rightarrow> int \<Rightarrow> real \<Rightarrow> real \<Rightarrow> real \<Rightarrow> store
     \<Rightarrow> store \<times> (pyerr + nat \<times> nat)" where
  "superpose_st hp_numpy hc_numpy len_hp len_hc t_echo del_t_echo n_echoes amplitude gamma timestep s =
     (if timestep = 0 then (s, Inl ZeroDivisionError)
      else
        case np_zeros (int len_hp + echo_extent t_echo n_echoes del_t_echo timestep) of
          Inl e \<Rightarrow> (s, Inl e)
        | Inr zp \<Rightarrow>
        (let (s1, hparray) = alloc zp s
         in case np_zeros (int len_hc + echo_extent t_echo n_echoes del_t_echo timestep) of
              Inl e \<Rightarrow> (s1, Inl e)
            | Inr zc \<Rightarrow>
            (let (s2, hcarray) = alloc zc s1;
                 t_echo_steps = first_offset t_echo timestep
             in case iadd_st hparray t_echo_steps
                       (t_echo_steps + int (length (arrays s2 ! hp_numpy)))
                       (map (\<lambda>x. x * amplitude * - 1) (arrays s2 ! hp_numpy)) s2 of
                  (s3, Inl e) \<Rightarrow> (s3, Inl e)
                | (s3, Inr u) \<Rightarrow>
                (case iadd_st hcarray t_echo_steps
                        (t_echo_steps + int (length (arrays s3 ! hc_numpy)))
                        (map (\<lambda>x. x * amplitude * - 1) (arrays s3 ! hc_numpy)) s3 of
                   (s4, Inl e) \<Rightarrow> (s4, Inl e)
                 | (s4, Inr u) \<Rightarrow>
                 (case echo_loop_st hp_numpy hc_numpy len_hp t_echo del_t_echo amplitude gamma
                         timestep [1..<nat n_echoes] hparray hcarray s4 of
                    (s5, Inl e) \<Rightarrow> (s5, Inl e)
                  | (s5, Inr u) \<Rightarrow> (s5, Inr (hparray, hcarray)))))))"

text \<open>Source lines 20 to 144; the returned series refer to the two buffers.\<close>

definition add_echoes_st ::
  "(timeseries \<Rightarrow> timeseries \<Rightarrow> pyerr + real list) \<Rightarrow> tsobj \<Rightarrow> tsobj \<Rightarrow> real \<Rightarrow> real
     \<Rightarrow> real \<Rightarrow> int \<Rightarrow> real \<Rightarrow> real \<Rightarrow> real option \<Rightarrow> store
     \<Rightarrow> store \<times> (pyerr + tsobj \<times> tsobj)" where
  "add_echoes_st fe hp hc t0trunc t_echo del_t_echo n_echoes amplitude gamma timestep_arg s =
     (let timestep = (case timestep_arg of None \<Rightarrow> spacing hp | Some ts \<Rightarrow> ts)
      in case template (deref s hp) (deref s hc) of
           Inl e \<Rightarrow> (s, Inl e)
         | Inr tmpl \<Rightarrow>
         (let (s1, sampletimesarray) = alloc (sample_times (deref s hp)) s
          in case merger_time tmpl (arrays s1 ! sampletimesarray) of
               Inl e \<Rightarrow> (s1, Inl e)
             | Inr t_merger \<Rightarrow>
             (case angular_frequency_st fe hp hc (length tmpl) s1 of
                (s2, Inl e) \<Rightarrow> (s2, Inl e)
              | (s2, Inr omega) \<Rightarrow>
              (case taper_seed_st hp hc t0trunc t_merger sampletimesarray omega s2 of
                 (s3, Inl e) \<Rightarrow> (s3, Inl e)
               | (s3, Inr (hp_numpy, hc_numpy)) \<Rightarrow>
               (case superpose_st hp_numpy hc_numpy
                       (length (arrays s3 ! samples_at hp)) (length (arrays s3 ! samples_at hc))
                       t_echo del_t_echo n_echoes amplitude gamma timestep s3 of
                  (s4, Inl e) \<Rightarrow> (s4, Inl e)
                | (s4, Inr (hparray, hcarray)) \<Rightarrow>
                (case py_index (sample_times (deref s4 hp)) 0 of
                   Inl e \<Rightarrow> (s4, Inl e)
                 | Inr epoch_hp \<Rightarrow>
                 (case py_index (sample_times (deref s4 hc)) 0 of
                    Inl e \<Rightarrow> (s4, Inl e)
                  | Inr epoch_hc \<Rightarrow>
                      (s4, Inr (\<lparr>samples_at = hparray, spacing = timestep, start = epoch_hp\<rparr>,
                                \<lparr>samples_at = hcarray, spacing = timestep, start = epoch_hc\<rparr>)))))))))"

subsection \<open>Notions of the specification\<close>



text \<open>The length of the leading zero run of a channel.\<close>

definition leading_zeros :: "real list \<Rightarrow> nat" where
  "leading_zeros xs = length (takeWhile (\<lambda>x. x = 0) xs)"

text \<open>The taper coefficient of one sample with angular frequency \<open>omega\<close> at time \<open>t\<close>,
  in the words of the specification.\<close>

definition spec_taper :: "real \<Rightarrow> real \<Rightarrow> real \<Rightarrow> real \<Rightarrow> real" where
  "spec_taper omega t t_merger t0trunc = 0.5 * (1 + tanh (0.5 * omega * (t - t_merger - t0trunc)))"


section \<open>Properties\<close>

subsection \<open>Merger time\<close>





lemma length_sample_times: "length (sample_times h) = length (data h)"
  by (simp add: sample_times_def)




subsection \<open>Echo offsets stay inside the buffers\<close>

lemma py_round_bounds: "\<lfloor>x\<rfloor> \<le> py_round x \<and> py_round x \<le> \<lceil>x\<rceil>"
proof -
  have c: "\<lfloor>x\<rfloor> + 1 \<le> \<lceil>x\<rceil>" if "0 < x - of_int \<lfloor>x\<rfloor>"
    using that by linarith
  have f: "\<lfloor>x\<rfloor> \<le> \<lceil>x\<rceil>" by linarith
  show ?thesis
    unfolding py_round_def Let_def using c f by (auto split: if_splits) 
qed

lemma py_round_nonneg: "0 \<le> x \<Longrightarrow> 0 \<le> py_round x"
  using py_round_bounds[of x] zero_le_floor[of x] by linarith

lemma first_offset_eq: "first_offset t_echo timestep = echo_offset t_echo del_t_echo 0 timestep"
  by (simp add: first_offset_def echo_offset_def)

lemma echo_offset_le_extent:
  assumes "0 < timestep" "0 \<le> del_t_echo" "int j \<le> n_echoes"
  shows "echo_offset t_echo del_t_echo j timestep \<le> echo_extent t_echo n_echoes del_t_echo timestep"
proof -
  have "del_t_echo * real j \<le> of_int n_echoes * del_t_echo"
  proof -
    have "real j \<le> of_int n_echoes" using assms(3) by linarith
    then show ?thesis using assms(2) by (simp add: mult.commute mult_left_mono)
  qed
  then have "(t_echo + del_t_echo * real j) * 1 / timestep
               \<le> (t_echo + of_int n_echoes * del_t_echo) * 1 / timestep"
    using assms(1) by (simp add: divide_right_mono)
  then have "\<lceil>(t_echo + del_t_echo * real j) * 1 / timestep\<rceil>
               \<le> \<lceil>(t_echo + of_int n_echoes * del_t_echo) * 1 / timestep\<rceil>"
    by (rule ceiling_mono)
  then show ?thesis
    unfolding echo_offset_def echo_extent_def
    using py_round_bounds[of "(t_echo + del_t_echo * real j) * 1 / timestep"] by linarith
qed

lemma echo_offset_nonneg:
  assumes "0 < timestep" "0 \<le> del_t_echo" "0 \<le> t_echo"
  shows "0 \<le> echo_offset t_echo del_t_echo j timestep"
  unfolding echo_offset_def using assms by (intro py_round_nonneg) simp

text \<open>
  C6: under the caller contract (non-empty input of length L, at least one echo, positive
  time step, non-negative delays) every echo offset is non-negative and the offset plus L
  does not exceed the length of the allocated buffer.
\<close>

theorem echo_writes_within_buffer:
  assumes "0 < L" and "1 \<le> n_echoes" and "0 < timestep" and "0 \<le> t_echo" and "0 \<le> del_t_echo"
  shows "\<exists>hparray. np_zeros (int L + echo_extent t_echo n_echoes del_t_echo timestep) = Inr hparray \<and>
           first_offset t_echo timestep = echo_offset t_echo del_t_echo 0 timestep \<and>
           (\<forall>j. int j < n_echoes \<longrightarrow>
                 0 \<le> echo_offset t_echo del_t_echo j timestep \<and>
                 echo_offset t_echo del_t_echo j timestep + int L \<le> int (length hparray))"
proof -
  have e0: "0 \<le> echo_extent t_echo n_echoes del_t_echo timestep"
    using echo_offset_le_extent[of timestep del_t_echo 0 n_echoes t_echo]
          echo_offset_nonneg[of timestep del_t_echo t_echo 0] assms by simp
  let ?buf = "replicate (nat (int L + echo_extent t_echo n_echoes del_t_echo timestep)) (0::real)"
  have z: "np_zeros (int L + echo_extent t_echo n_echoes del_t_echo timestep) = Inr ?buf"
    using e0 by (simp add: np_zeros_def)
  have len: "int (length ?buf) = int L + echo_extent t_echo n_echoes del_t_echo timestep"
    using e0 by simp
  have "0 \<le> echo_offset t_echo del_t_echo j timestep \<and>
        echo_offset t_echo del_t_echo j timestep + int L \<le> int (length ?buf)"
    if "int j < n_echoes" for j
    using echo_offset_nonneg[OF assms(3) assms(5) assms(4), of j]
          echo_offset_le_extent[OF assms(3) assms(5), of j n_echoes t_echo] that len
    by linarith
  then show ?thesis using z first_offset_eq by blast
qed

theorem echo_writes_within_buffer_witness:
  "(0::nat) < 2 \<and> (1::int) \<le> 2 \<and> (0::real) < 1 / 2 \<and> (0::real) \<le> 1 \<and>
   (\<exists>hparray. np_zeros (int 2 + echo_extent 1 2 1 (1 / 2)) = Inr hparray \<and>
      0 \<le> echo_offset 1 1 1 (1 / 2) \<and>
      echo_offset 1 1 1 (1 / 2) + int 2 \<le> int (length hparray))"
proof -
  obtain hparray where h: "np_zeros (int 2 + echo_extent 1 2 1 (1 / 2)) = Inr hparray"
    and b: "\<forall>j. int j < 2 \<longrightarrow> 0 \<le> echo_offset 1 1 j (1 / 2) \<and>
                 echo_offset 1 1 j (1 / 2) + int 2 \<le> int (length hparray)"
    using echo_writes_within_buffer [of 2 2 "1 / 2" 1 1] by auto
  have "0 \<le> echo_offset 1 1 1 (1 / 2) \<and> echo_offset 1 1 1 (1 / 2) + int 2 \<le> int (length hparray)"
    using b by simp
  then show ?thesis using h by auto
qed

subsection \<open>Accumulating the echoes\<close>













subsection \<open>The leading zero-run scan\<close>

lemma leading_zeros_le: "leading_zeros xs \<le> length xs"
  by (simp add: leading_zeros_def length_takeWhile_le)

lemma leading_zeros_less_iff: "leading_zeros xs < length xs \<longleftrightarrow> (\<exists>x\<in>set xs. x \<noteq> 0)"
proof -
  have "leading_zeros xs = length xs \<longleftrightarrow> (\<forall>x\<in>set xs. x = 0)"
  proof
    assume "leading_zeros xs = length xs"
    then have "takeWhile (\<lambda>x. x = 0) xs = xs"
      unfolding leading_zeros_def
      by (metis takeWhile_eq_take take_all order_refl)
    then show "\<forall>x\<in>set xs. x = 0" by (simp add: takeWhile_eq_all_conv)
  next
    assume "\<forall>x\<in>set xs. x = 0"
    then have "takeWhile (\<lambda>x. x = 0) xs = xs" by (simp add: takeWhile_eq_all_conv)
    then show "leading_zeros xs = length xs" unfolding leading_zeros_def by (rule arg_cong)
  qed
  then show ?thesis using leading_zeros_le[of xs] by (metis le_neq_implies_less less_irrefl)
qed



lemma leading_zeros_Cons:
  "leading_zeros (x # xs) = (if x = 0 then Suc (leading_zeros xs) else 0)"
  by (simp add: leading_zeros_def)

lemma zero_scan_from:
  "i \<le> length xs \<Longrightarrow>
     zero_scan xs i = (if i + leading_zeros (drop i xs) < length xs
                       then Inr (i + leading_zeros (drop i xs)) else Inl IndexError)"
proof (induction xs i rule: zero_scan.induct)
  case (1 xs i)
  show ?case
  proof (cases "i < length xs")
    case True
    then have d: "drop i xs = xs ! i # drop (Suc i) xs" by (simp add: Cons_nth_drop_Suc)
    show ?thesis
    proof (cases "xs ! i = 0")
      case z: True
      have "zero_scan xs (Suc i) = (if Suc i + leading_zeros (drop (Suc i) xs) < length xs
                       then Inr (Suc i + leading_zeros (drop (Suc i) xs)) else Inl IndexError)"
        using "1.IH"[OF True z] True by simp
      moreover have "zero_scan xs i = zero_scan xs (Suc i)"
        using True z by (subst zero_scan.simps) simp
      moreover have "leading_zeros (drop i xs) = Suc (leading_zeros (drop (Suc i) xs))"
        using z by (simp add: d leading_zeros_Cons)
      ultimately show ?thesis by simp
    next
      case nz: False
      have "leading_zeros (drop i xs) = 0" using nz by (simp add: d leading_zeros_Cons)
      moreover have "zero_scan xs i = Inr i"
        using True nz by (subst zero_scan.simps) simp
      ultimately show ?thesis using True by simp
    qed
  next
    case False
    then have "zero_scan xs i = Inl IndexError" by (subst zero_scan.simps) simp
    moreover have "leading_zeros (drop i xs) = 0" using False by (simp add: leading_zeros_def)
    ultimately show ?thesis using False by simp
  qed
qed

lemma zero_scan_start:
  "zero_scan xs 0 = (if leading_zeros xs < length xs then Inr (leading_zeros xs) else Inl IndexError)"
  using zero_scan_from[of 0 xs] by simp

subsection \<open>The zero-run correction\<close>

lemma both_start_zero_nonempty:
  assumes "data hp \<noteq> []" and "data hc \<noteq> []"
  shows "both_start_zero hp hc = Inr (data hp ! 0 = 0 \<and> data hc ! 0 = 0)"
proof -
  have "py_index (data hp) 0 = Inr (data hp ! 0)" "py_index (data hc) 0 = Inr (data hc ! 0)"
    using assms by (simp_all add: py_index_def)
  then show ?thesis by (simp add: both_start_zero_def)
qed

lemma slice_fill_zeros:
  "slice_fill (replicate n 0) m v = replicate (min m n) v @ replicate (n - m) 0"
  by (simp add: slice_fill_def)

lemma resize_same_length: "length xs = n \<Longrightarrow> resize xs n = xs"
  by (simp add: resize_def)


lemma zero_run_correction_run:
  assumes "leading_zeros (data hp) < length (data hp)" and "leading_zeros (data hc) < length (data hc)"
  shows "zero_run_correction hp hc omega n =
           (''Active'' #
              (if leading_zeros (data hp) \<noteq> leading_zeros (data hc)
               then [''Polarisations have unequal number of leading zeroes.''] else []),
            if max (leading_zeros (data hp)) (leading_zeros (data hc)) < length omega
            then Inr (replicate (min (max (leading_zeros (data hp)) (leading_zeros (data hc))) n)
                        (omega ! max (leading_zeros (data hp)) (leading_zeros (data hc)))
                      @ replicate (n - max (leading_zeros (data hp)) (leading_zeros (data hc))) 0)
            else Inl IndexError)"
proof -
  let ?m = "max (leading_zeros (data hp)) (leading_zeros (data hc))"
  have s: "zero_scan (data hp) 0 = Inr (leading_zeros (data hp))"
    "zero_scan (data hc) 0 = Inr (leading_zeros (data hc))"
    using assms unfolding zero_scan_start by simp_all
  show ?thesis
  proof (cases "?m < length omega")
    case True
    then have i: "py_index omega (int ?m) = Inr (omega ! ?m)" by (simp add: py_index_def)
    have "zero_run_correction hp hc omega n =
            (''Active'' #
              (if leading_zeros (data hp) \<noteq> leading_zeros (data hc)
               then [''Polarisations have unequal number of leading zeroes.''] else []),
             Inr (slice_fill (replicate n 0) ?m (omega ! ?m)))"
      unfolding zero_run_correction_def s Let_def sum.case i old.sum.simps ..
    then show ?thesis using True unfolding slice_fill_zeros by simp
  next
    case False
    then have i: "py_index omega (int ?m) = Inl IndexError" by (simp add: py_index_def)
    have "zero_run_correction hp hc omega n =
            (''Active'' #
              (if leading_zeros (data hp) \<noteq> leading_zeros (data hc)
               then [''Polarisations have unequal number of leading zeroes.''] else []),
             Inl IndexError)"
      unfolding zero_run_correction_def s Let_def sum.case i old.sum.simps ..
    then show ?thesis using False by simp
  qed
qed

lemma zero_run_correction_all_zero:
  assumes "\<not> leading_zeros (data hp) < length (data hp) \<or> \<not> leading_zeros (data hc) < length (data hc)"
  shows "zero_run_correction hp hc omega n = ([''Active''], Inl IndexError)"
proof -
  have "zero_scan (data hp) 0 = Inl IndexError \<or>
        (\<exists>k. zero_scan (data hp) 0 = Inr k \<and> zero_scan (data hc) 0 = Inl IndexError)"
    using assms unfolding zero_scan_start by auto
  then show ?thesis unfolding zero_run_correction_def by auto
qed

lemma angular_frequency_eval:
  assumes "fe (trim_zeros hp) (trim_zeros hc) = Inr f"
    and "\<exists>x\<in>set (data hp). x \<noteq> 0" and "\<exists>x\<in>set (data hc). x \<noteq> 0"
  shows "angular_frequency fe hp hc n =
           (if data hp ! 0 = 0 \<and> data hc ! 0 = 0 then
              (''Active'' #
                 (if leading_zeros (data hp) \<noteq> leading_zeros (data hc)
                  then [''Polarisations have unequal number of leading zeroes.''] else []),
               if max (leading_zeros (data hp)) (leading_zeros (data hc)) < length f
               then Inr (replicate (min (max (leading_zeros (data hp)) (leading_zeros (data hc))) n)
                           (2 * pi * f ! max (leading_zeros (data hp)) (leading_zeros (data hc)))
                         @ replicate (n - max (leading_zeros (data hp)) (leading_zeros (data hc))) 0)
               else Inl IndexError)
            else ([], Inr (resize (map (\<lambda>x. 2 * pi * x) f) n)))"
proof -
  define m where "m = max (leading_zeros (data hp)) (leading_zeros (data hc))"
  define out where "out = ''Active'' #
                 (if leading_zeros (data hp) \<noteq> leading_zeros (data hc)
                  then [''Polarisations have unequal number of leading zeroes.''] else [])"
  let ?omega = "map (\<lambda>x. 2 * pi * x) f"
  have ne: "data hp \<noteq> []" "data hc \<noteq> []" using assms(2,3) by auto
  have lz: "leading_zeros (data hp) < length (data hp)" "leading_zeros (data hc) < length (data hc)"
    using assms(2,3) by (simp_all add: leading_zeros_less_iff)
  have raw: "raw_omega fe hp hc = Inr ?omega" using assms(1) by (simp add: raw_omega_def)
  have cond: "both_start_zero hp hc = Inr (data hp ! 0 = 0 \<and> data hc ! 0 = 0)"
    using ne by (rule both_start_zero_nonempty)
  have zr: "zero_run_correction hp hc ?omega n =
              (out, if m < length ?omega
                    then Inr (replicate (min m n) (?omega ! m) @ replicate (n - m) 0)
                    else Inl IndexError)"
    unfolding m_def out_def by (rule zero_run_correction_run[OF lz])
  have "angular_frequency fe hp hc n =
           (if data hp ! 0 = 0 \<and> data hc ! 0 = 0 then
              (out, if m < length f
                    then Inr (replicate (min m n) (2 * pi * f ! m) @ replicate (n - m) 0)
                    else Inl IndexError)
            else ([], Inr (resize ?omega n)))"
  proof (cases "data hp ! 0 = 0 \<and> data hc ! 0 = 0")
    case True
    have g: "both_start_zero hp hc = Inr True" using cond True by simp
    have step: "angular_frequency fe hp hc n =
                  (case zero_run_correction hp hc ?omega n of
                     (out, Inl e) \<Rightarrow> (out, Inl e)
                   | (out, Inr omega_temp) \<Rightarrow> (out, Inr (resize omega_temp n)))"
      by (simp add: angular_frequency_def raw g)
    show ?thesis
    proof (cases "m < length f")
      case m: True
      have l: "length (replicate (min m n) (?omega ! m) @ replicate (n - m) (0::real)) = n"
        by simp
      have v: "?omega ! m = 2 * pi * f ! m" using m by simp
      have "angular_frequency fe hp hc n =
              (out, Inr (resize (replicate (min m n) (?omega ! m) @ replicate (n - m) 0) n))"
        unfolding step zr using m by simp
      moreover have "resize (replicate (min m n) (2 * pi * f ! m) @ replicate (n - m) 0) n
                       = replicate (min m n) (2 * pi * f ! m) @ replicate (n - m) 0"
        by (rule resize_same_length) simp
      ultimately show ?thesis using True m by simp
    next
      case m: False
      have "angular_frequency fe hp hc n = (out, Inl IndexError)"
        unfolding step zr using m by simp
      then show ?thesis using True m by simp
    qed
  next
    case False
    have g: "both_start_zero hp hc = Inr False" using cond False by simp
    have r: "angular_frequency fe hp hc n = ([], Inr (resize ?omega n))"
      by (simp add: angular_frequency_def raw g)
    show ?thesis unfolding r if_not_P[OF False] ..
  qed
  then show ?thesis unfolding m_def out_def .
qed

lemma replicate_unfold:
  "replicate 2 x = [x, x]" "replicate 3 x = [x, x, x]" "replicate 5 x = [x, x, x, x, x]"
  by (simp_all add: numeral_eq_Suc)

lemma angular_frequency_skip:
  assumes "fe (trim_zeros hp) (trim_zeros hc) = Inr f" and "data hp \<noteq> []" and "data hc \<noteq> []"
    and "\<not> (data hp ! 0 = 0 \<and> data hc ! 0 = 0)"
  shows "angular_frequency fe hp hc n = ([], Inr (resize (map (\<lambda>x. 2 * pi * x) f) n))"
proof -
  have raw: "raw_omega fe hp hc = Inr (map (\<lambda>x. 2 * pi * x) f)"
    using assms(1) by (simp add: raw_omega_def)
  have g: "both_start_zero hp hc = Inr False"
    using both_start_zero_nonempty[OF assms(2,3)] assms(4) by simp
  show ?thesis by (simp add: angular_frequency_def raw g)
qed

text \<open>
  C2, as the code has it: the correction is entered exactly when both channels begin
  with an exact zero; with a non-zero first sample in either channel the resized raw
  estimate is used and nothing is printed.  When it is entered (each channel holding a
  non-zero sample), the two zero-run lengths are found independently, the warning is
  printed exactly when they differ, and the larger one is the boundary: the estimate at
  that index fills the entries before it, and reading it past the end of the estimate
  raises \<open>IndexError\<close>.
\<close>

theorem zero_run_correction_condition:
  assumes "fe (trim_zeros hp) (trim_zeros hc) = Inr f"
    and "data hp \<noteq> []" and "data hc \<noteq> []"
    and "data hp ! 0 = 0 \<and> data hc ! 0 = 0 \<longrightarrow>
           (\<exists>x\<in>set (data hp). x \<noteq> 0) \<and> (\<exists>x\<in>set (data hc). x \<noteq> 0)"
  shows "angular_frequency fe hp hc n =
           (if data hp ! 0 = 0 \<and> data hc ! 0 = 0 then
              (''Active'' #
                 (if leading_zeros (data hp) \<noteq> leading_zeros (data hc)
                  then [''Polarisations have unequal number of leading zeroes.''] else []),
               if max (leading_zeros (data hp)) (leading_zeros (data hc)) < length f
               then Inr (replicate (min (max (leading_zeros (data hp)) (leading_zeros (data hc))) n)
                           (2 * pi * f ! max (leading_zeros (data hp)) (leading_zeros (data hc)))
                         @ replicate (n - max (leading_zeros (data hp)) (leading_zeros (data hc))) 0)
               else Inl IndexError)
            else ([], Inr (resize (map (\<lambda>x. 2 * pi * x) f) n)))"
proof (cases "data hp ! 0 = 0 \<and> data hc ! 0 = 0")
  case True
  then have "\<exists>x\<in>set (data hp). x \<noteq> 0" "\<exists>x\<in>set (data hc). x \<noteq> 0"
    using assms(4) by blast+
  with assms(1) show ?thesis by (rule angular_frequency_eval)
next
  case False
  have "angular_frequency fe hp hc n = ([], Inr (resize (map (\<lambda>x. 2 * pi * x) f) n))"
    using assms(1,2,3) False by (rule angular_frequency_skip)
  then show ?thesis unfolding if_not_P[OF False] .
qed

theorem zero_run_correction_condition_witness:
  "(\<lambda>(a::timeseries) (b::timeseries). (Inr [1, 2, 3, 4] :: pyerr + real list))
       (trim_zeros \<lparr>data = [0, 0, 1, 1, 1, 1, 1], delta_t = 1, epoch = 0\<rparr>)
       (trim_zeros \<lparr>data = [0, 1, 1, 1, 1, 1, 0], delta_t = 1, epoch = 0\<rparr>) = Inr [1, 2, 3, 4] \<and>
   data \<lparr>data = [0, 0, 1, 1, 1, 1, 1], delta_t = 1, epoch = 0\<rparr> \<noteq> [] \<and>
   data \<lparr>data = [0, 1, 1, 1, 1, 1, 0], delta_t = 1, epoch = 0\<rparr> \<noteq> [] \<and>
   (\<exists>x\<in>set (data \<lparr>data = [0, 0, 1, 1, 1, 1, 1], delta_t = 1, epoch = 0\<rparr>). x \<noteq> 0) \<and>
   (\<exists>x\<in>set (data \<lparr>data = [0, 1, 1, 1, 1, 1, 0], delta_t = 1, epoch = 0\<rparr>). x \<noteq> 0) \<and>
   angular_frequency (\<lambda>a b. Inr [1, 2, 3, 4])
       \<lparr>data = [0, 0, 1, 1, 1, 1, 1], delta_t = 1, epoch = 0\<rparr>
       \<lparr>data = [0, 1, 1, 1, 1, 1, 0], delta_t = 1, epoch = 0\<rparr> 7
     = ([''Active'', ''Polarisations have unequal number of leading zeroes.''],
        Inr [6 * pi, 6 * pi, 0, 0, 0, 0, 0])"
  using zero_run_correction_condition
          [of "\<lambda>a b. Inr [1, 2, 3, 4]"
              "\<lparr>data = [0, 0, 1, 1, 1, 1, 1], delta_t = 1, epoch = 0\<rparr>"
              "\<lparr>data = [0, 1, 1, 1, 1, 1, 0], delta_t = 1, epoch = 0\<rparr>" "[1, 2, 3, 4]" 7]
  by (simp add: leading_zeros_def replicate_unfold)

text \<open>
  The plus channel begins with a zero and the cross channel does not: the correction is
  skipped, although one channel begins with a zero sample.
\<close>

theorem one_leading_zero_skips_correction:
  "data \<lparr>data = [0, 1, - 1], delta_t = 1, epoch = 0\<rparr> ! 0 = 0 \<and>
   angular_frequency (\<lambda>a b. Inr [1 / 4])
       \<lparr>data = [0, 1, - 1], delta_t = 1, epoch = 0\<rparr>
       \<lparr>data = [1, 1, 0], delta_t = 1, epoch = 0\<rparr> 3
     = ([], Inr [pi / 2, 0, 0])"
  by (simp add: angular_frequency_def raw_omega_def both_start_zero_def py_index_def resize_def
        replicate_unfold)




text \<open>
  C1 at a concrete input: both channels have one leading zero, the estimate of the trimmed
  signal is [1/4, -1/2] (angular frequency [pi/2, -pi]).  The entry before the boundary
  holds the angular frequency at index 1, and every entry from the boundary on is zero:
  the estimate itself is not copied into the array handed to the taper.
\<close>

theorem zero_run_tail_left_zero:
  "raw_omega (\<lambda>a b. Inr [1 / 4, - (1 / 2)])
       \<lparr>data = [0, 1, - 1, 1], delta_t = 1, epoch = 0\<rparr>
       \<lparr>data = [0, 1, 1, - 1], delta_t = 1, epoch = 0\<rparr> = Inr [pi / 2, - pi] \<and>
   angular_frequency (\<lambda>a b. Inr [1 / 4, - (1 / 2)])
       \<lparr>data = [0, 1, - 1, 1], delta_t = 1, epoch = 0\<rparr>
       \<lparr>data = [0, 1, 1, - 1], delta_t = 1, epoch = 0\<rparr> 4
     = ([''Active''], Inr [- pi, 0, 0, 0])"
proof -
  have r: "raw_omega (\<lambda>a b. Inr [1 / 4, - (1 / 2)])
       \<lparr>data = [0, 1, - 1, 1], delta_t = 1, epoch = 0\<rparr>
       \<lparr>data = [0, 1, 1, - 1], delta_t = 1, epoch = 0\<rparr> = Inr [pi / 2, - pi]"
    by (simp add: raw_omega_def)
  have g: "both_start_zero \<lparr>data = [0, 1, - 1, 1], delta_t = 1, epoch = 0\<rparr>
       \<lparr>data = [0, 1, 1, - 1], delta_t = 1, epoch = 0\<rparr> = Inr True"
    by (simp add: both_start_zero_def py_index_def)
  have z: "zero_scan [0, 1, - 1, 1] 0 = Inr 1" "zero_scan [0, 1, 1, - 1] 0 = Inr 1"
    by (simp_all add: zero_scan_start leading_zeros_def)
  have c: "zero_run_correction \<lparr>data = [0, 1, - 1, 1], delta_t = 1, epoch = 0\<rparr>
       \<lparr>data = [0, 1, 1, - 1], delta_t = 1, epoch = 0\<rparr> [pi / 2, - pi] 4
         = ([''Active''], Inr [- pi, 0, 0, 0])"
    by (simp add: zero_run_correction_def z py_index_def slice_fill_def replicate_unfold)
  show ?thesis using r by (simp add: angular_frequency_def g c resize_def)
qed

subsection \<open>The taper\<close>




lemma truncfunc_run:
  assumes "length omega = length t"
  shows "truncfunc t t0 t_merger omega =
           Inr (map2 (\<lambda>w x. spec_taper w x t_merger t0) omega t)"
proof -
  have "np_broadcast2 times (map (\<lambda>w. 0.5 * w) omega) (map (\<lambda>x. x - t_merger - t0) t)
          = Inr (map2 times (map (\<lambda>w. 0.5 * w) omega) (map (\<lambda>x. x - t_merger - t0) t))"
    using assms by (simp add: np_broadcast2_def)
  moreover have "map (\<lambda>z. 0.5 * (1 + tanh z))
                   (map2 times (map (\<lambda>w. 0.5 * w) omega) (map (\<lambda>x. x - t_merger - t0) t))
                 = map2 (\<lambda>w x. spec_taper w x t_merger t0) omega t"
    using assms by (intro nth_equalityI) (simp_all add: spec_taper_def)
  ultimately show ?thesis by (simp add: truncfunc_def)
qed

lemma taper_seed_run:
  assumes "length omega = length (data hp)" and "length (data hc) = length (data hp)"
  shows "taper_seed hp hc t0trunc t_merger omega =
           Inr (map2 times (data hp) (map2 (\<lambda>w x. spec_taper w x t_merger t0trunc) omega (sample_times hp)),
                map2 times (data hc) (map2 (\<lambda>w x. spec_taper w x t_merger t0trunc) omega (sample_times hp)))"
proof -
  let ?tc = "map2 (\<lambda>w x. spec_taper w x t_merger t0trunc) omega (sample_times hp)"
  have t: "truncfunc (sample_times hp) t0trunc t_merger omega = Inr ?tc"
    using assms(1) by (intro truncfunc_run) (simp add: length_sample_times)
  have l: "length ?tc = length (data hp)" using assms(1) by (simp add: length_sample_times)
  have p: "np_broadcast2 times (data hp) ?tc = Inr (map2 times (data hp) ?tc)"
    using l by (simp add: np_broadcast2_def)
  have c: "np_broadcast2 times (data hc) ?tc = Inr (map2 times (data hc) ?tc)"
    using l assms(2) by (simp add: np_broadcast2_def)
  show ?thesis by (simp add: taper_seed_def t p c)
qed

text \<open>
  C7: with one angular frequency per sample, the taper coefficient of every sample is
  0.5 * (1 + tanh(0.5 * omega(t) * (t - t_merger - t0trunc))), computed from that sample's
  own frequency and time, and both polarisations are multiplied sample by sample with it
  to give the echo seed.
\<close>

theorem taper_is_spec_formula:
  assumes "length omega = length (data hp)" and "length (data hc) = length (data hp)"
  shows "\<exists>tapercoeff hp_numpy hc_numpy.
           truncfunc (sample_times hp) t0trunc t_merger omega = Inr tapercoeff \<and>
           taper_seed hp hc t0trunc t_merger omega = Inr (hp_numpy, hc_numpy) \<and>
           length tapercoeff = length (data hp) \<and>
           length hp_numpy = length (data hp) \<and> length hc_numpy = length (data hp) \<and>
           (\<forall>i<length (data hp).
              tapercoeff ! i = spec_taper (omega ! i) (sample_times hp ! i) t_merger t0trunc \<and>
              hp_numpy ! i = data hp ! i * tapercoeff ! i \<and>
              hc_numpy ! i = data hc ! i * tapercoeff ! i)"
proof -
  let ?tc = "map2 (\<lambda>w x. spec_taper w x t_merger t0trunc) omega (sample_times hp)"
  have t: "truncfunc (sample_times hp) t0trunc t_merger omega = Inr ?tc"
    using assms(1) by (intro truncfunc_run) (simp add: length_sample_times)
  have l: "length ?tc = length (data hp)" using assms(1) by (simp add: length_sample_times)
  have n: "?tc ! i = spec_taper (omega ! i) (sample_times hp ! i) t_merger t0trunc"
    if "i < length (data hp)" for i
    using that assms(1) by (simp add: length_sample_times)
  have "map2 times (data hp) ?tc ! i = data hp ! i * ?tc ! i" if "i < length (data hp)" for i
    using that l by simp
  moreover have "map2 times (data hc) ?tc ! i = data hc ! i * ?tc ! i" if "i < length (data hp)" for i
    using that l assms(2) by simp
  moreover have "length (map2 times (data hp) ?tc) = length (data hp)"
    "length (map2 times (data hc) ?tc) = length (data hp)"
    using l assms(2) by simp_all
  ultimately show ?thesis
    using t taper_seed_run[OF assms, of t0trunc t_merger] l n by blast
qed

theorem taper_is_spec_formula_witness:
  "length [2, 2 :: real] = length (data \<lparr>data = [1, 2], delta_t = 1, epoch = 0\<rparr>) \<and>
   length (data \<lparr>data = [3, 4], delta_t = 1, epoch = 0\<rparr>)
     = length (data \<lparr>data = [1, 2], delta_t = 1, epoch = 0\<rparr>) \<and>
   (\<exists>tapercoeff hp_numpy hc_numpy.
      truncfunc (sample_times \<lparr>data = [1, 2], delta_t = 1, epoch = 0\<rparr>) 0 1 [2, 2] = Inr tapercoeff \<and>
      taper_seed \<lparr>data = [1, 2], delta_t = 1, epoch = 0\<rparr> \<lparr>data = [3, 4], delta_t = 1, epoch = 0\<rparr>
          0 1 [2, 2] = Inr (hp_numpy, hc_numpy) \<and>
      tapercoeff ! 1 = 1 / 2 \<and> hp_numpy ! 1 = 1 \<and> hc_numpy ! 1 = 2)"
proof -
  obtain tapercoeff hp_numpy hc_numpy where r:
    "truncfunc (sample_times \<lparr>data = [1, 2], delta_t = 1, epoch = 0\<rparr>) 0 1 [2, 2] = Inr tapercoeff"
    "taper_seed \<lparr>data = [1, 2], delta_t = 1, epoch = 0\<rparr> \<lparr>data = [3, 4], delta_t = 1, epoch = 0\<rparr>
          0 1 [2, 2] = Inr (hp_numpy, hc_numpy)"
    "\<forall>i<length (data \<lparr>data = [1, 2], delta_t = 1, epoch = 0\<rparr>).
        tapercoeff ! i = spec_taper ([2, 2] ! i)
             (sample_times \<lparr>data = [1, 2], delta_t = 1, epoch = 0\<rparr> ! i) 1 0 \<and>
        hp_numpy ! i = data \<lparr>data = [1, 2], delta_t = 1, epoch = 0\<rparr> ! i * tapercoeff ! i \<and>
        hc_numpy ! i = data \<lparr>data = [3, 4], delta_t = 1, epoch = 0\<rparr> ! i * tapercoeff ! i"
    using taper_is_spec_formula
            [of "[2, 2]" "\<lparr>data = [1, 2], delta_t = 1, epoch = 0\<rparr>"
                "\<lparr>data = [3, 4], delta_t = 1, epoch = 0\<rparr>" 0 1]
    by auto
  have s: "sample_times \<lparr>data = [1, 2], delta_t = 1, epoch = 0\<rparr> ! 1 = 1"
    by (simp add: sample_times_def upt_conv_Cons)
  have "tapercoeff ! 1 = spec_taper ([2, 2] ! 1)
             (sample_times \<lparr>data = [1, 2], delta_t = 1, epoch = 0\<rparr> ! 1) 1 0 \<and>
        hp_numpy ! 1 = data \<lparr>data = [1, 2], delta_t = 1, epoch = 0\<rparr> ! 1 * tapercoeff ! 1 \<and>
        hc_numpy ! 1 = data \<lparr>data = [3, 4], delta_t = 1, epoch = 0\<rparr> ! 1 * tapercoeff ! 1"
    using r(3) by simp
  then have "tapercoeff ! 1 = 1 / 2 \<and> hp_numpy ! 1 = 1 \<and> hc_numpy ! 1 = 2"
    unfolding s by (simp add: spec_taper_def)
  then show ?thesis using r(1,2) by auto
qed

subsection \<open>The whole call\<close>









subsection \<open>The call on a store of arrays\<close>

lemma deref_cong:
  "arrays s' ! samples_at h = arrays s ! samples_at h \<Longrightarrow> deref s' h = deref s h"
  by (simp add: deref_def)

lemma zero_run_correction_st_sim:
  assumes "zero_run_correction_st hp hc omega omega_temp s = (s', r)"
    and "omega_temp < length (arrays s)"
    and "omega_temp \<noteq> omega"
    and "arrays s ! omega_temp = replicate n 0"
  shows "console s' = console s @ fst (zero_run_correction (deref s hp) (deref s hc) (arrays s ! omega) n) \<and>
         length (arrays s') = length (arrays s) \<and>
         (\<forall>a. a \<noteq> omega_temp \<longrightarrow> arrays s' ! a = arrays s ! a) \<and>
         (case r of
            Inl e \<Rightarrow> snd (zero_run_correction (deref s hp) (deref s hc) (arrays s ! omega) n) = Inl e
          | Inr a \<Rightarrow> a = omega_temp \<and>
              snd (zero_run_correction (deref s hp) (deref s hc) (arrays s ! omega) n)
                = Inr (arrays s' ! omega_temp))"
  using assms
  unfolding zero_run_correction_st_def zero_run_correction_def
  by (auto simp: Let_def emit_def put_def deref_def split: sum.splits if_splits)

lemma angular_frequency_st_sim:
  assumes st: "angular_frequency_st fe hp hc n s = (s', r)"
    and vp: "samples_at hp < length (arrays s)" and vc: "samples_at hc < length (arrays s)"
  shows "console s' = console s @ fst (angular_frequency fe (deref s hp) (deref s hc) n) \<and>
         length (arrays s) \<le> length (arrays s') \<and>
         (\<forall>a<length (arrays s). arrays s' ! a = arrays s ! a) \<and>
         (case r of
            Inl e \<Rightarrow> snd (angular_frequency fe (deref s hp) (deref s hc) n) = Inl e
          | Inr a \<Rightarrow> length (arrays s) \<le> a \<and> a < length (arrays s') \<and>
              snd (angular_frequency fe (deref s hp) (deref s hc) n) = Inr (arrays s' ! a))"
proof (cases "raw_omega fe (deref s hp) (deref s hc)")
  case (Inl e)
  then show ?thesis using st by (auto simp: angular_frequency_st_def angular_frequency_def)
next
  case (Inr om)
  let ?B = "length (arrays s)"
  obtain s1 omega where a1: "alloc om s = (s1, omega)" by (cases "alloc om s") auto
  obtain s2 omega_temp where a2: "alloc (replicate n 0) s1 = (s2, omega_temp)"
    by (cases "alloc (replicate n 0) s1") auto
  have s2: "arrays s2 = arrays s @ [om, replicate n 0]" "console s2 = console s"
    and ad: "omega = ?B" "omega_temp = Suc ?B"
    using a1 a2 by (auto simp: alloc_def)
  have d: "deref s2 hp = deref s hp" "deref s2 hc = deref s hc"
    using vp vc by (simp_all add: deref_def nth_append s2)
  have st2: "(case both_start_zero (deref s hp) (deref s hc) of
                Inl e \<Rightarrow> (s2, Inl e)
              | Inr b \<Rightarrow>
                  (case (if b then zero_run_correction_st hp hc ?B (Suc ?B) s2
                         else (s2, Inr ?B)) of
                     (s3, Inl e) \<Rightarrow> (s3, Inl e)
                   | (s3, Inr omega') \<Rightarrow>
                       (put omega' (resize (arrays s3 ! omega') n) s3, Inr omega'))) = (s', r)"
    using st unfolding angular_frequency_st_def Inr sum.case a1 a2 Let_def prod.case d ad .
  show ?thesis
  proof (cases "both_start_zero (deref s hp) (deref s hc)")
    case e: (Inl e)
    then have "s' = s2" "r = Inl e" using st2 by simp_all
    then show ?thesis using Inr e by (simp add: angular_frequency_def nth_append s2)
  next
    case b: (Inr b)
    show ?thesis
    proof (cases b)
      case False
      then have "s' = put ?B (resize (arrays s2 ! ?B) n) s2" "r = Inr ?B"
        using st2 b by simp_all
      then show ?thesis using Inr b False
        by (simp add: angular_frequency_def put_def nth_append nth_list_update s2)
    next
      case True
      obtain s3 r3 where z: "zero_run_correction_st hp hc ?B (Suc ?B) s2 = (s3, r3)"
        by (cases "zero_run_correction_st hp hc ?B (Suc ?B) s2") auto
      have sim: "console s3 = console s2 @ fst (zero_run_correction (deref s2 hp) (deref s2 hc) (arrays s2 ! ?B) n) \<and>
         length (arrays s3) = length (arrays s2) \<and>
         (\<forall>a. a \<noteq> Suc ?B \<longrightarrow> arrays s3 ! a = arrays s2 ! a) \<and>
         (case r3 of
            Inl e \<Rightarrow> snd (zero_run_correction (deref s2 hp) (deref s2 hc) (arrays s2 ! ?B) n) = Inl e
          | Inr a \<Rightarrow> a = Suc ?B \<and>
              snd (zero_run_correction (deref s2 hp) (deref s2 hc) (arrays s2 ! ?B) n)
                = Inr (arrays s3 ! Suc ?B))"
        by (rule zero_run_correction_st_sim[OF z]) (simp_all add: nth_append s2)
      have om: "arrays s2 ! ?B = om" by (simp add: nth_append s2)
      obtain out pr where p: "zero_run_correction (deref s hp) (deref s hc) om n = (out, pr)"
        by (cases "zero_run_correction (deref s hp) (deref s hc) om n") auto
      have c3: "console s3 = console s @ out" and l3: "length (arrays s3) = Suc (Suc ?B)"
        and f3: "\<forall>a<?B. arrays s3 ! a = arrays s ! a"
        using sim p unfolding d om by (auto simp: nth_append s2)
      have af: "angular_frequency fe (deref s hp) (deref s hc) n =
                  (case pr of Inl e \<Rightarrow> (out, Inl e) | Inr omega_temp \<Rightarrow> (out, Inr (resize omega_temp n)))"
        using Inr b True p by (simp add: angular_frequency_def split: sum.splits)
      show ?thesis
      proof (cases r3)
        case e: (Inl e)
        then have "s' = s3" "r = Inl e" using st2 b True z by simp_all
        moreover have "pr = Inl e" using sim e p unfolding d om by simp
        ultimately show ?thesis using c3 l3 f3 af by simp
      next
        case a: (Inr a)
        then have a': "a = Suc ?B" and pr: "pr = Inr (arrays s3 ! Suc ?B)"
          using sim p unfolding d om by simp_all
        have "s' = put (Suc ?B) (resize (arrays s3 ! Suc ?B) n) s3" "r = Inr (Suc ?B)"
          using st2 b True z a a' by simp_all
        then show ?thesis using c3 l3 f3 af pr
          by (simp add: put_def nth_list_update)
      qed
    qed
  qed
qed

lemma taper_seed_st_sim:
  assumes st: "taper_seed_st hp hc t0trunc t_merger sampletimesarray omega s = (s', r)"
    and vp: "samples_at hp < length (arrays s)" and vc: "samples_at hc < length (arrays s)"
    and sa: "arrays s ! sampletimesarray = sample_times (deref s hp)"
  shows "console s' = console s \<and>
         length (arrays s) \<le> length (arrays s') \<and>
         (\<forall>a<length (arrays s). arrays s' ! a = arrays s ! a) \<and>
         (case r of
            Inl e \<Rightarrow> taper_seed (deref s hp) (deref s hc) t0trunc t_merger (arrays s ! omega) = Inl e
          | Inr (p, c) \<Rightarrow> length (arrays s) \<le> p \<and> p < length (arrays s') \<and>
              length (arrays s) \<le> c \<and> c < length (arrays s') \<and> p \<noteq> c \<and>
              taper_seed (deref s hp) (deref s hc) t0trunc t_merger (arrays s ! omega)
                = Inr (arrays s' ! p, arrays s' ! c))"
proof (cases "truncfunc (arrays s ! sampletimesarray) t0trunc t_merger (arrays s ! omega)")
  case (Inl e)
  then have "s' = s" "r = Inl e" using st by (simp_all add: taper_seed_st_def)
  moreover have "taper_seed (deref s hp) (deref s hc) t0trunc t_merger (arrays s ! omega) = Inl e"
    using Inl sa by (simp add: taper_seed_def)
  ultimately show ?thesis by simp
next
  case (Inr tc)
  let ?B = "length (arrays s)"
  obtain s1 tapercoeff where a1: "alloc tc s = (s1, tapercoeff)" by (cases "alloc tc s") auto
  have s1: "arrays s1 = arrays s @ [tc]" "console s1 = console s" "tapercoeff = ?B"
    using a1 by (auto simp: alloc_def)
  have r1: "arrays s1 ! samples_at hp = data (deref s hp)" "arrays s1 ! samples_at hc = data (deref s hc)"
    "arrays s1 ! ?B = tc"
    using vp vc by (simp_all add: s1 nth_append deref_def)
  have st1: "(case np_broadcast2 times (data (deref s hp)) tc of
                Inl e \<Rightarrow> (s1, Inl e)
              | Inr p \<Rightarrow>
                  (let (s2, hp_numpy) = alloc p s1
                   in case np_broadcast2 times (arrays s2 ! samples_at hc) (arrays s2 ! ?B) of
                        Inl e \<Rightarrow> (s2, Inl e)
                      | Inr c \<Rightarrow>
                          (let (s3, hc_numpy) = alloc c s2 in (s3, Inr (hp_numpy, hc_numpy)))))
             = (s', r)"
    using st unfolding taper_seed_st_def Inr sum.case a1 Let_def prod.case s1(3) r1 .
  have pure: "taper_seed (deref s hp) (deref s hc) t0trunc t_merger (arrays s ! omega) =
                (case np_broadcast2 times (data (deref s hp)) tc of
                   Inl e \<Rightarrow> Inl e
                 | Inr hp_numpy \<Rightarrow>
                     (case np_broadcast2 times (data (deref s hc)) tc of
                        Inl e \<Rightarrow> Inl e
                      | Inr hc_numpy \<Rightarrow> Inr (hp_numpy, hc_numpy)))"
    using Inr sa by (simp add: taper_seed_def)
  show ?thesis
  proof (cases "np_broadcast2 times (data (deref s hp)) tc")
    case e: (Inl e)
    then have "s' = s1" "r = Inl e" using st1 by simp_all
    then show ?thesis using pure e by (simp add: s1 nth_append)
  next
    case p: (Inr p)
    obtain s2 hp_numpy where a2: "alloc p s1 = (s2, hp_numpy)" by (cases "alloc p s1") auto
    have s2: "arrays s2 = arrays s @ [tc, p]" "console s2 = console s" "hp_numpy = Suc ?B"
      using a2 by (auto simp: alloc_def s1)
    have r2: "arrays s2 ! samples_at hc = data (deref s hc)" "arrays s2 ! ?B = tc"
      using vc by (simp_all add: s2 nth_append deref_def)
    have st2: "(case np_broadcast2 times (data (deref s hc)) tc of
                  Inl e \<Rightarrow> (s2, Inl e)
                | Inr c \<Rightarrow> (let (s3, hc_numpy) = alloc c s2 in (s3, Inr (Suc ?B, hc_numpy))))
               = (s', r)"
      using st1 unfolding p sum.case a2 Let_def prod.case r2 s2(3) .
    show ?thesis
    proof (cases "np_broadcast2 times (data (deref s hc)) tc")
      case e: (Inl e)
      then have "s' = s2" "r = Inl e" using st2 by simp_all
      then show ?thesis using pure p e by (simp add: s2 nth_append)
    next
      case c: (Inr c)
      then have "s' = fst (alloc c s2)" "r = Inr (Suc ?B, snd (alloc c s2))"
        using st2 by (simp_all add: split_def Let_def)
      then have "arrays s' = arrays s @ [tc, p, c]" "console s' = console s"
        "r = Inr (Suc ?B, Suc (Suc ?B))"
        by (simp_all add: alloc_def s2)
      then show ?thesis using pure p c by (simp add: nth_append)
    qed
  qed
qed

lemma iadd_st_sim:
  assumes "iadd_st a i j rhs s = (s', r)" and "a < length (arrays s)"
  shows "console s' = console s \<and> length (arrays s') = length (arrays s) \<and>
         (\<forall>b. b \<noteq> a \<longrightarrow> arrays s' ! b = arrays s ! b) \<and>
         (case r of
            Inl e \<Rightarrow> slice_iadd (arrays s ! a) i j rhs = Inl e \<and> s' = s
          | Inr u \<Rightarrow> slice_iadd (arrays s ! a) i j rhs = Inr (arrays s' ! a))"
  using assms by (auto simp: iadd_st_def put_def split: sum.splits)

lemma echo_loop_st_sim:
  assumes "hparray < length (arrays s)" and "hcarray < length (arrays s)" and "hparray \<noteq> hcarray"
    and "hp_numpy \<noteq> hparray" and "hp_numpy \<noteq> hcarray"
    and "hc_numpy \<noteq> hparray" and "hc_numpy \<noteq> hcarray"
    and "echo_loop_st hp_numpy hc_numpy len t_echo del_t_echo amplitude gamma timestep js
           hparray hcarray s = (s', r)"
  shows "console s' = console s \<and> length (arrays s') = length (arrays s) \<and>
         (\<forall>b. b \<noteq> hparray \<and> b \<noteq> hcarray \<longrightarrow> arrays s' ! b = arrays s ! b) \<and>
         (case r of
            Inl e \<Rightarrow>
              echo_loop (arrays s ! hp_numpy) (arrays s ! hc_numpy) len t_echo del_t_echo amplitude
                gamma timestep js (arrays s ! hparray, arrays s ! hcarray) = Inl e
          | Inr u \<Rightarrow>
              echo_loop (arrays s ! hp_numpy) (arrays s ! hc_numpy) len t_echo del_t_echo amplitude
                gamma timestep js (arrays s ! hparray, arrays s ! hcarray)
                = Inr (arrays s' ! hparray, arrays s' ! hcarray))"
  using assms(1,2,8)
proof (induction js arbitrary: s)
  case Nil
  then have "s' = s" "r = Inr ()" by simp_all
  then show ?case by simp
next
  case (Cons j js)
  let ?d = "echo_offset t_echo del_t_echo j timestep"
  let ?f = "\<lambda>x. x * amplitude * gamma ^ j * (- 1) ^ (j + 1)"
  obtain s1 r1 where i1:
    "iadd_st hparray ?d (?d + int len) (map ?f (arrays s ! hp_numpy)) s = (s1, r1)"
    by (cases "iadd_st hparray ?d (?d + int len) (map ?f (arrays s ! hp_numpy)) s") auto
  have f1: "console s1 = console s" "length (arrays s1) = length (arrays s)"
    "\<forall>b. b \<noteq> hparray \<longrightarrow> arrays s1 ! b = arrays s ! b"
    "case r1 of
       Inl e \<Rightarrow> slice_iadd (arrays s ! hparray) ?d (?d + int len) (map ?f (arrays s ! hp_numpy)) = Inl e \<and> s1 = s
     | Inr u \<Rightarrow> slice_iadd (arrays s ! hparray) ?d (?d + int len) (map ?f (arrays s ! hp_numpy))
                  = Inr (arrays s1 ! hparray)"
    using iadd_st_sim[OF i1 Cons.prems(1)] by simp_all
  show ?case
  proof (cases r1)
    case e: (Inl e)
    then have "s' = s1" "r = Inl e" using Cons.prems(3) i1 by (simp_all add: Let_def)
    then show ?thesis using f1 e by (simp add: Let_def)
  next
    case u1: (Inr u1)
    have p1: "slice_iadd (arrays s ! hparray) ?d (?d + int len) (map ?f (arrays s ! hp_numpy))
                  = Inr (arrays s1 ! hparray)"
      using f1(4) u1 by simp
    obtain s2 r2 where i2:
      "iadd_st hcarray ?d (?d + int len) (map ?f (arrays s1 ! hc_numpy)) s1 = (s2, r2)"
      by (cases "iadd_st hcarray ?d (?d + int len) (map ?f (arrays s1 ! hc_numpy)) s1") auto
    have v1: "hcarray < length (arrays s1)" using Cons.prems(2) f1(2) by simp
    have f2: "console s2 = console s1" "length (arrays s2) = length (arrays s1)"
      "\<forall>b. b \<noteq> hcarray \<longrightarrow> arrays s2 ! b = arrays s1 ! b"
      "case r2 of
         Inl e \<Rightarrow> slice_iadd (arrays s1 ! hcarray) ?d (?d + int len) (map ?f (arrays s1 ! hc_numpy)) = Inl e \<and> s2 = s1
       | Inr u \<Rightarrow> slice_iadd (arrays s1 ! hcarray) ?d (?d + int len) (map ?f (arrays s1 ! hc_numpy))
                    = Inr (arrays s2 ! hcarray)"
      using iadd_st_sim[OF i2 v1] by simp_all
    have k1: "arrays s1 ! hc_numpy = arrays s ! hc_numpy" "arrays s1 ! hcarray = arrays s ! hcarray"
      using f1(3) assms(3,6) by simp_all
    show ?thesis
    proof (cases r2)
      case e: (Inl e)
      then have "s' = s2" "r = Inl e" using Cons.prems(3) i1 u1 i2 by (simp_all add: Let_def)
      moreover have "slice_iadd (arrays s ! hcarray) ?d (?d + int len) (map ?f (arrays s ! hc_numpy)) = Inl e"
        using f2(4) e k1 by simp
      ultimately show ?thesis using f1(1,2,3) f2(1,2,3) p1 by (simp add: Let_def)
    next
      case u2: (Inr u2)
      have p2: "slice_iadd (arrays s ! hcarray) ?d (?d + int len) (map ?f (arrays s ! hc_numpy))
                  = Inr (arrays s2 ! hcarray)"
        using f2(4) u2 k1 by simp
      have rest: "echo_loop_st hp_numpy hc_numpy len t_echo del_t_echo amplitude gamma timestep js
                    hparray hcarray s2 = (s', r)"
        using Cons.prems(3) i1 u1 i2 u2 by (simp add: Let_def)
      have v2: "hparray < length (arrays s2)" "hcarray < length (arrays s2)"
        using Cons.prems(1,2) f1(2) f2(2) by simp_all
      have ih: "console s' = console s2 \<and> length (arrays s') = length (arrays s2) \<and>
         (\<forall>b. b \<noteq> hparray \<and> b \<noteq> hcarray \<longrightarrow> arrays s' ! b = arrays s2 ! b) \<and>
         (case r of
            Inl e \<Rightarrow>
              echo_loop (arrays s2 ! hp_numpy) (arrays s2 ! hc_numpy) len t_echo del_t_echo amplitude
                gamma timestep js (arrays s2 ! hparray, arrays s2 ! hcarray) = Inl e
          | Inr u \<Rightarrow>
              echo_loop (arrays s2 ! hp_numpy) (arrays s2 ! hc_numpy) len t_echo del_t_echo amplitude
                gamma timestep js (arrays s2 ! hparray, arrays s2 ! hcarray)
                = Inr (arrays s' ! hparray, arrays s' ! hcarray))"
        using Cons.IH[OF v2 rest] .
      have k2: "arrays s2 ! hp_numpy = arrays s ! hp_numpy" "arrays s2 ! hc_numpy = arrays s ! hc_numpy"
        "arrays s2 ! hparray = arrays s1 ! hparray"
        using f1(3) f2(3) assms(3,4,5,6,7) by simp_all
      have pure: "echo_loop (arrays s ! hp_numpy) (arrays s ! hc_numpy) len t_echo del_t_echo amplitude
                gamma timestep (j # js) (arrays s ! hparray, arrays s ! hcarray)
              = echo_loop (arrays s2 ! hp_numpy) (arrays s2 ! hc_numpy) len t_echo del_t_echo amplitude
                gamma timestep js (arrays s2 ! hparray, arrays s2 ! hcarray)"
        using p1 p2 k2 by (simp add: Let_def)
      have frame: "\<forall>b. b \<noteq> hparray \<and> b \<noteq> hcarray \<longrightarrow> arrays s' ! b = arrays s ! b"
        using ih f1(3) f2(3) by simp
      show ?thesis unfolding pure using ih frame f1(1,2) f2(1,2) by simp
    qed
  qed
qed

lemma superpose_st_sim:
  assumes st: "superpose_st hp_numpy hc_numpy len_hp len_hc t_echo del_t_echo n_echoes amplitude
                 gamma timestep s = (s', r)"
    and vp: "hp_numpy < length (arrays s)" and vc: "hc_numpy < length (arrays s)"
  shows "console s' = console s \<and> length (arrays s) \<le> length (arrays s') \<and>
         (\<forall>a<length (arrays s). arrays s' ! a = arrays s ! a) \<and>
         (case r of
            Inl e \<Rightarrow>
              superpose (arrays s ! hp_numpy) (arrays s ! hc_numpy) len_hp len_hc t_echo del_t_echo
                n_echoes amplitude gamma timestep = Inl e
          | Inr (a, c) \<Rightarrow> length (arrays s) \<le> a \<and> a < length (arrays s') \<and>
              length (arrays s) \<le> c \<and> c < length (arrays s') \<and> a \<noteq> c \<and>
              superpose (arrays s ! hp_numpy) (arrays s ! hc_numpy) len_hp len_hc t_echo del_t_echo
                n_echoes amplitude gamma timestep = Inr (arrays s' ! a, arrays s' ! c))"
proof (cases "timestep = 0")
  case True
  then have "s' = s" "r = Inl ZeroDivisionError" using st by (simp_all add: superpose_st_def)
  then show ?thesis using True by (simp add: superpose_def)
next
  case ts: False
  let ?B = "length (arrays s)"
  let ?ext = "echo_extent t_echo n_echoes del_t_echo timestep"
  let ?hpn = "arrays s ! hp_numpy"
  let ?hcn = "arrays s ! hc_numpy"
  let ?d0 = "first_offset t_echo timestep"
  show ?thesis
  proof (cases "np_zeros (int len_hp + ?ext)")
    case e: (Inl e)
    then have "s' = s" "r = Inl e" using st ts by (simp_all add: superpose_st_def)
    then show ?thesis using ts e by (simp add: superpose_def)
  next
    case zp: (Inr zp)
    obtain s1 hparray where a1: "alloc zp s = (s1, hparray)" by (cases "alloc zp s") auto
    have s1: "arrays s1 = arrays s @ [zp]" "console s1 = console s" "hparray = ?B"
      using a1 by (auto simp: alloc_def)
    show ?thesis
    proof (cases "np_zeros (int len_hc + ?ext)")
      case e: (Inl e)
      then have "s' = s1" "r = Inl e"
        using st ts zp a1 by (simp_all add: superpose_st_def)
      then show ?thesis using ts zp e by (simp add: superpose_def s1 nth_append)
    next
      case zc: (Inr zc)
      obtain s2 hcarray where a2: "alloc zc s1 = (s2, hcarray)" by (cases "alloc zc s1") auto
      have s2: "arrays s2 = arrays s @ [zp, zc]" "console s2 = console s" "hcarray = Suc ?B"
        using a2 by (auto simp: alloc_def s1)
      have g2: "arrays s2 ! hp_numpy = ?hpn" "arrays s2 ! hc_numpy = ?hcn"
        "arrays s2 ! ?B = zp" "arrays s2 ! Suc ?B = zc"
        using vp vc by (simp_all add: s2 nth_append)
      let ?rp = "map (\<lambda>x. x * amplitude * - 1) ?hpn"
      let ?rc = "map (\<lambda>x. x * amplitude * - 1) ?hcn"
      obtain s3 r3 where i3: "iadd_st ?B ?d0 (?d0 + int (length ?hpn)) ?rp s2 = (s3, r3)"
        by (cases "iadd_st ?B ?d0 (?d0 + int (length ?hpn)) ?rp s2") auto
      have v3: "?B < length (arrays s2)" by (simp add: s2)
      have f3: "console s3 = console s2" "length (arrays s3) = length (arrays s2)"
        "\<forall>b. b \<noteq> ?B \<longrightarrow> arrays s3 ! b = arrays s2 ! b"
        "case r3 of
           Inl e \<Rightarrow> slice_iadd zp ?d0 (?d0 + int (length ?hpn)) ?rp = Inl e \<and> s3 = s2
         | Inr u \<Rightarrow> slice_iadd zp ?d0 (?d0 + int (length ?hpn)) ?rp = Inr (arrays s3 ! ?B)"
        using iadd_st_sim[OF i3 v3, unfolded g2(3)] by simp_all
      have st3: "(case r3 of
                  Inl e \<Rightarrow> (s3, Inl e)
                | Inr u \<Rightarrow>
                (case iadd_st (Suc ?B) ?d0
                        (?d0 + int (length (arrays s3 ! hc_numpy)))
                        (map (\<lambda>x. x * amplitude * - 1) (arrays s3 ! hc_numpy)) s3 of
                   (s4, Inl e) \<Rightarrow> (s4, Inl e)
                 | (s4, Inr u) \<Rightarrow>
                 (case echo_loop_st hp_numpy hc_numpy len_hp t_echo del_t_echo amplitude gamma
                         timestep [1..<nat n_echoes] ?B (Suc ?B) s4 of
                    (s5, Inl e) \<Rightarrow> (s5, Inl e)
                  | (s5, Inr u) \<Rightarrow> (s5, Inr (?B, Suc ?B))))) = (s', r)"
        using st unfolding superpose_st_def if_not_P[OF ts] zp zc sum.case a1 a2 Let_def prod.case
          s1(3) s2(3) g2 i3 .
      have pure: "superpose ?hpn ?hcn len_hp len_hc t_echo del_t_echo n_echoes amplitude gamma timestep =
           (case slice_iadd zp ?d0 (?d0 + int (length ?hpn)) ?rp of
              Inl e \<Rightarrow> Inl e
            | Inr hparray' \<Rightarrow>
            (case slice_iadd zc ?d0 (?d0 + int (length ?hcn)) ?rc of
               Inl e \<Rightarrow> Inl e
             | Inr hcarray' \<Rightarrow>
                 echo_loop ?hpn ?hcn len_hp t_echo del_t_echo amplitude gamma timestep
                   [1..<nat n_echoes] (hparray', hcarray')))"
        using ts zp zc by (simp add: superpose_def Let_def)
      have low3: "\<forall>a<?B. arrays s3 ! a = arrays s ! a"
        using f3(3) by (simp add: s2 nth_append)
      show ?thesis
      proof (cases r3)
        case e: (Inl e)
        then have "s' = s3" "r = Inl e" using st3 by simp_all
        then show ?thesis using pure f3 e low3 by (simp add: s2)
      next
        case u3: (Inr u3)
        have p3: "slice_iadd zp ?d0 (?d0 + int (length ?hpn)) ?rp = Inr (arrays s3 ! ?B)"
          using f3(4) u3 by simp
        have g3: "arrays s3 ! hp_numpy = ?hpn" "arrays s3 ! hc_numpy = ?hcn" "arrays s3 ! Suc ?B = zc"
          using f3(3) g2 vp vc by simp_all
        obtain s4 r4 where i4: "iadd_st (Suc ?B) ?d0 (?d0 + int (length ?hcn)) ?rc s3 = (s4, r4)"
          by (cases "iadd_st (Suc ?B) ?d0 (?d0 + int (length ?hcn)) ?rc s3") auto
        have v4: "Suc ?B < length (arrays s3)" using f3(2) by (simp add: s2)
        have f4: "console s4 = console s3" "length (arrays s4) = length (arrays s3)"
          "\<forall>b. b \<noteq> Suc ?B \<longrightarrow> arrays s4 ! b = arrays s3 ! b"
          "case r4 of
             Inl e \<Rightarrow> slice_iadd zc ?d0 (?d0 + int (length ?hcn)) ?rc = Inl e \<and> s4 = s3
           | Inr u \<Rightarrow> slice_iadd zc ?d0 (?d0 + int (length ?hcn)) ?rc = Inr (arrays s4 ! Suc ?B)"
          using iadd_st_sim[OF i4 v4, unfolded g3(3)] by simp_all
        have st4: "(case r4 of
                   Inl e \<Rightarrow> (s4, Inl e)
                 | Inr u \<Rightarrow>
                 (case echo_loop_st hp_numpy hc_numpy len_hp t_echo del_t_echo amplitude gamma
                         timestep [1..<nat n_echoes] ?B (Suc ?B) s4 of
                    (s5, Inl e) \<Rightarrow> (s5, Inl e)
                  | (s5, Inr u) \<Rightarrow> (s5, Inr (?B, Suc ?B)))) = (s', r)"
          using st3 unfolding u3 prod.case sum.case g3 i4 .
        have low4: "\<forall>a<?B. arrays s4 ! a = arrays s ! a"
          using f4(3) low3 by simp
        show ?thesis
        proof (cases r4)
          case e: (Inl e)
          then have "s' = s4" "r = Inl e" using st4 by simp_all
          then show ?thesis using pure p3 f3 f4 e low4 by (simp add: s2)
        next
          case u4: (Inr u4)
          have p4: "slice_iadd zc ?d0 (?d0 + int (length ?hcn)) ?rc = Inr (arrays s4 ! Suc ?B)"
            using f4(4) u4 by simp
          have g4: "arrays s4 ! hp_numpy = ?hpn" "arrays s4 ! hc_numpy = ?hcn"
            "arrays s4 ! ?B = arrays s3 ! ?B"
            using f4(3) g3 vp vc by simp_all
          obtain s5 r5 where l5:
            "echo_loop_st hp_numpy hc_numpy len_hp t_echo del_t_echo amplitude gamma
               timestep [1..<nat n_echoes] ?B (Suc ?B) s4 = (s5, r5)"
            by (cases "echo_loop_st hp_numpy hc_numpy len_hp t_echo del_t_echo amplitude gamma
               timestep [1..<nat n_echoes] ?B (Suc ?B) s4") auto
          have l4: "length (arrays s4) = Suc (Suc ?B)" using f4(2) f3(2) by (simp add: s2)
          have sim: "console s5 = console s4 \<and> length (arrays s5) = length (arrays s4) \<and>
             (\<forall>b. b \<noteq> ?B \<and> b \<noteq> Suc ?B \<longrightarrow> arrays s5 ! b = arrays s4 ! b) \<and>
             (case r5 of
                Inl e \<Rightarrow>
                  echo_loop (arrays s4 ! hp_numpy) (arrays s4 ! hc_numpy) len_hp t_echo del_t_echo amplitude
                    gamma timestep [1..<nat n_echoes] (arrays s4 ! ?B, arrays s4 ! Suc ?B) = Inl e
              | Inr u \<Rightarrow>
                  echo_loop (arrays s4 ! hp_numpy) (arrays s4 ! hc_numpy) len_hp t_echo del_t_echo amplitude
                    gamma timestep [1..<nat n_echoes] (arrays s4 ! ?B, arrays s4 ! Suc ?B)
                    = Inr (arrays s5 ! ?B, arrays s5 ! Suc ?B))"
            by (rule echo_loop_st_sim[OF _ _ _ _ _ _ _ l5]) (use vp vc l4 in simp_all)
          have pure5: "superpose ?hpn ?hcn len_hp len_hc t_echo del_t_echo n_echoes amplitude gamma timestep =
                 echo_loop (arrays s4 ! hp_numpy) (arrays s4 ! hc_numpy) len_hp t_echo del_t_echo amplitude
                    gamma timestep [1..<nat n_echoes] (arrays s4 ! ?B, arrays s4 ! Suc ?B)"
            unfolding pure p3 p4 g4 by simp
          have low5: "\<forall>a<?B. arrays s5 ! a = arrays s ! a" using sim low4 by simp
          have c5: "console s5 = console s" "length (arrays s5) = Suc (Suc ?B)"
            using sim f4(1) f3(1) l4 by (simp_all add: s2)
          show ?thesis
          proof (cases r5)
            case e: (Inl e)
            then have "s' = s5" "r = Inl e" using st4 u4 l5 by simp_all
            then show ?thesis using sim e pure5 low5 c5 by simp
          next
            case u5: (Inr u5)
            then have "s' = s5" "r = Inr (?B, Suc ?B)" using st4 u4 l5 by simp_all
            then show ?thesis using sim u5 pure5 low5 c5 by simp
          qed
        qed
      qed
    qed
  qed
qed

text \<open>
  C10: a call on a store never changes an array that was in the store before the call,
  in particular not the samples of the two inputs, whether the call returns or raises;
  the two returned sequences live at two different addresses that did not exist before
  the call; what is printed is what the functional model prints, and the result
  (an error, or the two sequences read from the final store) is the result of the
  functional model on the input values.
\<close>

theorem add_echoes_keeps_inputs:
  assumes st: "add_echoes_st fe hp hc t0trunc t_echo del_t_echo n_echoes amplitude gamma timestep_arg s
                 = (s', r)"
    and vp: "samples_at hp < length (arrays s)" and vc: "samples_at hc < length (arrays s)"
  shows "(\<forall>a<length (arrays s). arrays s' ! a = arrays s ! a) \<and>
         deref s' hp = deref s hp \<and> deref s' hc = deref s hc \<and>
         console s' = console s @
           fst (add_echoes fe (deref s hp) (deref s hc) t0trunc t_echo del_t_echo n_echoes amplitude
                  gamma timestep_arg) \<and>
         (case r of
            Inl e \<Rightarrow>
              snd (add_echoes fe (deref s hp) (deref s hc) t0trunc t_echo del_t_echo n_echoes
                     amplitude gamma timestep_arg) = Inl e
          | Inr (hp', hc') \<Rightarrow>
              length (arrays s) \<le> samples_at hp' \<and> samples_at hp' < length (arrays s') \<and>
              length (arrays s) \<le> samples_at hc' \<and> samples_at hc' < length (arrays s') \<and>
              samples_at hp' \<noteq> samples_at hc' \<and>
              snd (add_echoes fe (deref s hp) (deref s hc) t0trunc t_echo del_t_echo n_echoes
                     amplitude gamma timestep_arg) = Inr (deref s' hp', deref s' hc'))"
proof -
  let ?B = "length (arrays s)"
  let ?hp = "deref s hp"
  let ?hc = "deref s hc"
  let ?ts = "case timestep_arg of None \<Rightarrow> spacing hp | Some ts \<Rightarrow> ts"
  let ?pure = "add_echoes fe ?hp ?hc t0trunc t_echo del_t_echo n_echoes amplitude gamma timestep_arg"
  have dt: "delta_t ?hp = spacing hp" by (simp add: deref_def)
  have keep: "deref t hp = ?hp \<and> deref t hc = ?hc"
    if "\<forall>a<?B. arrays t ! a = arrays s ! a" for t
    using that vp vc by (simp add: deref_def)
  have goal: ?thesis
    if "\<forall>a<?B. arrays s' ! a = arrays s ! a"
      and "console s' = console s @ fst ?pure"
      and "case r of
            Inl e \<Rightarrow> snd ?pure = Inl e
          | Inr (hp', hc') \<Rightarrow>
              ?B \<le> samples_at hp' \<and> samples_at hp' < length (arrays s') \<and>
              ?B \<le> samples_at hc' \<and> samples_at hc' < length (arrays s') \<and>
              samples_at hp' \<noteq> samples_at hc' \<and>
              snd ?pure = Inr (deref s' hp', deref s' hc')"
    using that keep[of s'] by simp
  show ?thesis
  proof (cases "template ?hp ?hc")
    case e: (Inl e)
    then have "s' = s" "r = Inl e" using st by (simp_all add: add_echoes_st_def)
    moreover have "?pure = ([], Inl e)" using e by (simp add: add_echoes_def)
    ultimately show ?thesis by (intro goal) simp_all
  next
    case tm: (Inr tmpl)
    obtain s1 sta where a1: "alloc (sample_times ?hp) s = (s1, sta)"
      by (cases "alloc (sample_times ?hp) s") auto
    have s1: "arrays s1 = arrays s @ [sample_times ?hp]" "console s1 = console s" "sta = ?B"
      using a1 by (auto simp: alloc_def)
    have g1: "arrays s1 ! ?B = sample_times ?hp" by (simp add: s1)
    have low1: "\<forall>a<?B. arrays s1 ! a = arrays s ! a" by (simp add: s1 nth_append)
    have st1: "(case merger_time tmpl (sample_times ?hp) of
               Inl e \<Rightarrow> (s1, Inl e)
             | Inr t_merger \<Rightarrow>
             (case angular_frequency_st fe hp hc (length tmpl) s1 of
                (s2, Inl e) \<Rightarrow> (s2, Inl e)
              | (s2, Inr omega) \<Rightarrow>
              (case taper_seed_st hp hc t0trunc t_merger ?B omega s2 of
                 (s3, Inl e) \<Rightarrow> (s3, Inl e)
               | (s3, Inr (hp_numpy, hc_numpy)) \<Rightarrow>
               (case superpose_st hp_numpy hc_numpy
                       (length (arrays s3 ! samples_at hp)) (length (arrays s3 ! samples_at hc))
                       t_echo del_t_echo n_echoes amplitude gamma ?ts s3 of
                  (s4, Inl e) \<Rightarrow> (s4, Inl e)
                | (s4, Inr (hparray, hcarray)) \<Rightarrow>
                (case py_index (sample_times (deref s4 hp)) 0 of
                   Inl e \<Rightarrow> (s4, Inl e)
                 | Inr epoch_hp \<Rightarrow>
                 (case py_index (sample_times (deref s4 hc)) 0 of
                    Inl e \<Rightarrow> (s4, Inl e)
                  | Inr epoch_hc \<Rightarrow>
                      (s4, Inr (\<lparr>samples_at = hparray, spacing = ?ts, start = epoch_hp\<rparr>,
                                \<lparr>samples_at = hcarray, spacing = ?ts, start = epoch_hc\<rparr>)))))))) = (s', r)"
      using st unfolding add_echoes_st_def Let_def tm sum.case a1 prod.case s1(3) g1 .
    have pure1: "?pure =
         (case merger_time tmpl (sample_times ?hp) of
           Inl e \<Rightarrow> ([], Inl e)
         | Inr t_merger \<Rightarrow>
         (case angular_frequency fe ?hp ?hc (length tmpl) of
           (out, Inl e) \<Rightarrow> (out, Inl e)
         | (out, Inr omega) \<Rightarrow>
         (case taper_seed ?hp ?hc t0trunc t_merger omega of
           Inl e \<Rightarrow> (out, Inl e)
         | Inr (hp_numpy, hc_numpy) \<Rightarrow>
         (case superpose hp_numpy hc_numpy (length (data ?hp)) (length (data ?hc))
                 t_echo del_t_echo n_echoes amplitude gamma ?ts of
           Inl e \<Rightarrow> (out, Inl e)
         | Inr (hparray, hcarray) \<Rightarrow>
         (case py_index (sample_times ?hp) 0 of
           Inl e \<Rightarrow> (out, Inl e)
         | Inr epoch_hp \<Rightarrow>
         (case py_index (sample_times ?hc) 0 of
           Inl e \<Rightarrow> (out, Inl e)
         | Inr epoch_hc \<Rightarrow>
             (out, Inr (\<lparr>data = hparray, delta_t = ?ts, epoch = epoch_hp\<rparr>,
                        \<lparr>data = hcarray, delta_t = ?ts, epoch = epoch_hc\<rparr>))))))))"
      unfolding add_echoes_def Let_def tm sum.case dt ..
    show ?thesis
    proof (cases "merger_time tmpl (sample_times ?hp)")
      case e: (Inl e)
      then have "s' = s1" "r = Inl e" using st1 by simp_all
      moreover have "?pure = ([], Inl e)" using pure1 e by simp
      ultimately show ?thesis using low1 s1(2) by (intro goal) simp_all
    next
      case mt: (Inr t_merger)
      obtain s2 r2 where af: "angular_frequency_st fe hp hc (length tmpl) s1 = (s2, r2)"
        by (cases "angular_frequency_st fe hp hc (length tmpl) s1") auto
      have v1: "samples_at hp < length (arrays s1)" "samples_at hc < length (arrays s1)"
        using vp vc by (simp_all add: s1)
      have d1: "deref s1 hp = ?hp" "deref s1 hc = ?hc" using keep[OF low1] by simp_all
      obtain out pr where paf: "angular_frequency fe ?hp ?hc (length tmpl) = (out, pr)"
        by (cases "angular_frequency fe ?hp ?hc (length tmpl)") auto
      have sim2: "console s2 = console s1 @ out" "length (arrays s1) \<le> length (arrays s2)"
        "\<forall>a<length (arrays s1). arrays s2 ! a = arrays s1 ! a"
        "case r2 of
            Inl e \<Rightarrow> pr = Inl e
          | Inr a \<Rightarrow> length (arrays s1) \<le> a \<and> a < length (arrays s2) \<and> pr = Inr (arrays s2 ! a)"
        using angular_frequency_st_sim[OF af v1, unfolded d1 paf snd_conv fst_conv] by simp_all
      have low2: "\<forall>a<?B. arrays s2 ! a = arrays s ! a"
        using sim2(3) low1 by (simp add: s1)
      have g2: "arrays s2 ! ?B = sample_times ?hp" using sim2(3) g1 by (simp add: s1)
      have c2: "console s2 = console s @ out" using sim2(1) s1(2) by simp
      have st2: "(case r2 of
                Inl e \<Rightarrow> (s2, Inl e)
              | Inr omega \<Rightarrow>
              (case taper_seed_st hp hc t0trunc t_merger ?B omega s2 of
                 (s3, Inl e) \<Rightarrow> (s3, Inl e)
               | (s3, Inr (hp_numpy, hc_numpy)) \<Rightarrow>
               (case superpose_st hp_numpy hc_numpy
                       (length (arrays s3 ! samples_at hp)) (length (arrays s3 ! samples_at hc))
                       t_echo del_t_echo n_echoes amplitude gamma ?ts s3 of
                  (s4, Inl e) \<Rightarrow> (s4, Inl e)
                | (s4, Inr (hparray, hcarray)) \<Rightarrow>
                (case py_index (sample_times (deref s4 hp)) 0 of
                   Inl e \<Rightarrow> (s4, Inl e)
                 | Inr epoch_hp \<Rightarrow>
                 (case py_index (sample_times (deref s4 hc)) 0 of
                    Inl e \<Rightarrow> (s4, Inl e)
                  | Inr epoch_hc \<Rightarrow>
                      (s4, Inr (\<lparr>samples_at = hparray, spacing = ?ts, start = epoch_hp\<rparr>,
                                \<lparr>samples_at = hcarray, spacing = ?ts, start = epoch_hc\<rparr>))))))) = (s', r)"
        using st1 unfolding mt sum.case af prod.case .
      have pure2: "?pure =
         (case pr of
           Inl e \<Rightarrow> (out, Inl e)
         | Inr omega \<Rightarrow>
         (case taper_seed ?hp ?hc t0trunc t_merger omega of
           Inl e \<Rightarrow> (out, Inl e)
         | Inr (hp_numpy, hc_numpy) \<Rightarrow>
         (case superpose hp_numpy hc_numpy (length (data ?hp)) (length (data ?hc))
                 t_echo del_t_echo n_echoes amplitude gamma ?ts of
           Inl e \<Rightarrow> (out, Inl e)
         | Inr (hparray, hcarray) \<Rightarrow>
         (case py_index (sample_times ?hp) 0 of
           Inl e \<Rightarrow> (out, Inl e)
         | Inr epoch_hp \<Rightarrow>
         (case py_index (sample_times ?hc) 0 of
           Inl e \<Rightarrow> (out, Inl e)
         | Inr epoch_hc \<Rightarrow>
             (out, Inr (\<lparr>data = hparray, delta_t = ?ts, epoch = epoch_hp\<rparr>,
                        \<lparr>data = hcarray, delta_t = ?ts, epoch = epoch_hc\<rparr>)))))))"
        unfolding pure1 mt sum.case paf prod.case ..
      show ?thesis
      proof (cases r2)
        case e: (Inl e)
        then have "s' = s2" "r = Inl e" using st2 by simp_all
        moreover have "?pure = (out, Inl e)" using pure2 sim2(4) e by simp
        ultimately show ?thesis using low2 c2 by (intro goal) simp_all
      next
        case om: (Inr omega)
        have pr: "pr = Inr (arrays s2 ! omega)" using sim2(4) om by simp
        obtain s3 r3 where tp: "taper_seed_st hp hc t0trunc t_merger ?B omega s2 = (s3, r3)"
          by (cases "taper_seed_st hp hc t0trunc t_merger ?B omega s2") auto
        have v2: "samples_at hp < length (arrays s2)" "samples_at hc < length (arrays s2)"
          using v1 sim2(2) by simp_all
        have d2: "deref s2 hp = ?hp" "deref s2 hc = ?hc" using keep[OF low2] by simp_all
        have sa2: "arrays s2 ! ?B = sample_times (deref s2 hp)" using g2 d2 by simp
        have sim3: "console s3 = console s2" "length (arrays s2) \<le> length (arrays s3)"
          "\<forall>a<length (arrays s2). arrays s3 ! a = arrays s2 ! a"
          "case r3 of
            Inl e \<Rightarrow> taper_seed ?hp ?hc t0trunc t_merger (arrays s2 ! omega) = Inl e
          | Inr (p, c) \<Rightarrow> length (arrays s2) \<le> p \<and> p < length (arrays s3) \<and>
              length (arrays s2) \<le> c \<and> c < length (arrays s3) \<and> p \<noteq> c \<and>
              taper_seed ?hp ?hc t0trunc t_merger (arrays s2 ! omega)
                = Inr (arrays s3 ! p, arrays s3 ! c)"
          using taper_seed_st_sim[OF tp v2 sa2, unfolded d2] by simp_all
        have le2: "?B \<le> length (arrays s2)" using sim2(2) by (simp add: s1)
        have low3: "\<forall>a<?B. arrays s3 ! a = arrays s ! a"
          using sim3(3) low2 le2 by simp
        have c3: "console s3 = console s @ out" using sim3(1) c2 by simp
        have st3: "(case r3 of
                 Inl e \<Rightarrow> (s3, Inl e)
               | Inr (hp_numpy, hc_numpy) \<Rightarrow>
               (case superpose_st hp_numpy hc_numpy
                       (length (arrays s3 ! samples_at hp)) (length (arrays s3 ! samples_at hc))
                       t_echo del_t_echo n_echoes amplitude gamma ?ts s3 of
                  (s4, Inl e) \<Rightarrow> (s4, Inl e)
                | (s4, Inr (hparray, hcarray)) \<Rightarrow>
                (case py_index (sample_times (deref s4 hp)) 0 of
                   Inl e \<Rightarrow> (s4, Inl e)
                 | Inr epoch_hp \<Rightarrow>
                 (case py_index (sample_times (deref s4 hc)) 0 of
                    Inl e \<Rightarrow> (s4, Inl e)
                  | Inr epoch_hc \<Rightarrow>
                      (s4, Inr (\<lparr>samples_at = hparray, spacing = ?ts, start = epoch_hp\<rparr>,
                                \<lparr>samples_at = hcarray, spacing = ?ts, start = epoch_hc\<rparr>)))))) = (s', r)"
          using st2 unfolding om sum.case tp prod.case .
        have pure3: "?pure =
         (case taper_seed ?hp ?hc t0trunc t_merger (arrays s2 ! omega) of
           Inl e \<Rightarrow> (out, Inl e)
         | Inr (hp_numpy, hc_numpy) \<Rightarrow>
         (case superpose hp_numpy hc_numpy (length (data ?hp)) (length (data ?hc))
                 t_echo del_t_echo n_echoes amplitude gamma ?ts of
           Inl e \<Rightarrow> (out, Inl e)
         | Inr (hparray, hcarray) \<Rightarrow>
         (case py_index (sample_times ?hp) 0 of
           Inl e \<Rightarrow> (out, Inl e)
         | Inr epoch_hp \<Rightarrow>
         (case py_index (sample_times ?hc) 0 of
           Inl e \<Rightarrow> (out, Inl e)
         | Inr epoch_hc \<Rightarrow>
             (out, Inr (\<lparr>data = hparray, delta_t = ?ts, epoch = epoch_hp\<rparr>,
                        \<lparr>data = hcarray, delta_t = ?ts, epoch = epoch_hc\<rparr>))))))"
          unfolding pure2 pr sum.case ..
        show ?thesis
        proof (cases r3)
          case e: (Inl e)
          then have "s' = s3" "r = Inl e" using st3 by simp_all
          moreover have "?pure = (out, Inl e)" using pure3 sim3(4) e by simp
          ultimately show ?thesis using low3 c3 by (intro goal) simp_all
        next
          case sd: (Inr pc)
          obtain p c where pc: "pc = (p, c)" by (cases pc) auto
          have seed: "length (arrays s2) \<le> p" "p < length (arrays s3)"
            "length (arrays s2) \<le> c" "c < length (arrays s3)" "p \<noteq> c"
            "taper_seed ?hp ?hc t0trunc t_merger (arrays s2 ! omega) = Inr (arrays s3 ! p, arrays s3 ! c)"
            using sim3(4) sd pc by simp_all
          have d3: "deref s3 hp = ?hp" "deref s3 hc = ?hc" using keep[OF low3] by simp_all
          have len3: "length (arrays s3 ! samples_at hp) = length (data ?hp)"
            "length (arrays s3 ! samples_at hc) = length (data ?hc)"
            using low3 vp vc by (simp_all add: deref_def)
          obtain s4 r4 where sp: "superpose_st p c (length (data ?hp)) (length (data ?hc))
                       t_echo del_t_echo n_echoes amplitude gamma ?ts s3 = (s4, r4)"
            by (cases "superpose_st p c (length (data ?hp)) (length (data ?hc))
                       t_echo del_t_echo n_echoes amplitude gamma ?ts s3") auto
          have sim4: "console s4 = console s3" "length (arrays s3) \<le> length (arrays s4)"
            "\<forall>a<length (arrays s3). arrays s4 ! a = arrays s3 ! a"
            "case r4 of
              Inl e \<Rightarrow>
                superpose (arrays s3 ! p) (arrays s3 ! c) (length (data ?hp)) (length (data ?hc))
                  t_echo del_t_echo n_echoes amplitude gamma ?ts = Inl e
            | Inr (a, b) \<Rightarrow> length (arrays s3) \<le> a \<and> a < length (arrays s4) \<and>
                length (arrays s3) \<le> b \<and> b < length (arrays s4) \<and> a \<noteq> b \<and>
                superpose (arrays s3 ! p) (arrays s3 ! c) (length (data ?hp)) (length (data ?hc))
                  t_echo del_t_echo n_echoes amplitude gamma ?ts = Inr (arrays s4 ! a, arrays s4 ! b)"
            using superpose_st_sim[OF sp seed(2) seed(4)] by simp_all
          have le3: "?B \<le> length (arrays s3)" using le2 sim3(2) by simp
          have low4: "\<forall>a<?B. arrays s4 ! a = arrays s ! a"
            using sim4(3) low3 le3 by simp
          have c4: "console s4 = console s @ out" using sim4(1) c3 by simp
          have d4: "deref s4 hp = ?hp" "deref s4 hc = ?hc" using keep[OF low4] by simp_all
          have st4: "(case r4 of
                  Inl e \<Rightarrow> (s4, Inl e)
                | Inr (hparray, hcarray) \<Rightarrow>
                (case py_index (sample_times ?hp) 0 of
                   Inl e \<Rightarrow> (s4, Inl e)
                 | Inr epoch_hp \<Rightarrow>
                 (case py_index (sample_times ?hc) 0 of
                    Inl e \<Rightarrow> (s4, Inl e)
                  | Inr epoch_hc \<Rightarrow>
                      (s4, Inr (\<lparr>samples_at = hparray, spacing = ?ts, start = epoch_hp\<rparr>,
                                \<lparr>samples_at = hcarray, spacing = ?ts, start = epoch_hc\<rparr>))))) = (s', r)"
            using st3 unfolding sd pc sum.case prod.case len3 sp d4 .
          have pure4: "?pure =
           (case superpose (arrays s3 ! p) (arrays s3 ! c) (length (data ?hp)) (length (data ?hc))
                   t_echo del_t_echo n_echoes amplitude gamma ?ts of
             Inl e \<Rightarrow> (out, Inl e)
           | Inr (hparray, hcarray) \<Rightarrow>
           (case py_index (sample_times ?hp) 0 of
             Inl e \<Rightarrow> (out, Inl e)
           | Inr epoch_hp \<Rightarrow>
           (case py_index (sample_times ?hc) 0 of
             Inl e \<Rightarrow> (out, Inl e)
           | Inr epoch_hc \<Rightarrow>
               (out, Inr (\<lparr>data = hparray, delta_t = ?ts, epoch = epoch_hp\<rparr>,
                          \<lparr>data = hcarray, delta_t = ?ts, epoch = epoch_hc\<rparr>)))))"
            unfolding pure3 seed(6) sum.case prod.case ..
          show ?thesis
          proof (cases r4)
            case e: (Inl e)
            then have "s' = s4" "r = Inl e" using st4 by simp_all
            moreover have "?pure = (out, Inl e)" using pure4 sim4(4) e by simp
            ultimately show ?thesis using low4 c4 by (intro goal) simp_all
          next
            case ar: (Inr ab)
            obtain a b where ab: "ab = (a, b)" by (cases ab) auto
            have arr: "length (arrays s3) \<le> a" "a < length (arrays s4)"
              "length (arrays s3) \<le> b" "b < length (arrays s4)" "a \<noteq> b"
              "superpose (arrays s3 ! p) (arrays s3 ! c) (length (data ?hp)) (length (data ?hc))
                  t_echo del_t_echo n_echoes amplitude gamma ?ts = Inr (arrays s4 ! a, arrays s4 ! b)"
              using sim4(4) ar ab by simp_all
            have fresh: "?B \<le> a" "?B \<le> b" using arr(1,3) le3 by simp_all
            show ?thesis
            proof (cases "py_index (sample_times ?hp) 0")
              case e: (Inl e)
              then have "s' = s4" "r = Inl e" using st4 ar ab by simp_all
              moreover have "?pure = (out, Inl e)" using pure4 arr(6) e by simp
              ultimately show ?thesis using low4 c4 by (intro goal) simp_all
            next
              case ep: (Inr epoch_hp)
              show ?thesis
              proof (cases "py_index (sample_times ?hc) 0")
                case e: (Inl e)
                then have "s' = s4" "r = Inl e" using st4 ar ab ep by simp_all
                moreover have "?pure = (out, Inl e)" using pure4 arr(6) ep e by simp
                ultimately show ?thesis using low4 c4 by (intro goal) simp_all
              next
                case ec: (Inr epoch_hc)
                have "s' = s4"
                  "r = Inr (\<lparr>samples_at = a, spacing = ?ts, start = epoch_hp\<rparr>,
                            \<lparr>samples_at = b, spacing = ?ts, start = epoch_hc\<rparr>)"
                  using st4 ar ab ep ec by simp_all
                moreover have "?pure = (out, Inr (\<lparr>data = arrays s4 ! a, delta_t = ?ts, epoch = epoch_hp\<rparr>,
                          \<lparr>data = arrays s4 ! b, delta_t = ?ts, epoch = epoch_hc\<rparr>))"
                  using pure4 arr(6) ep ec by simp
                ultimately show ?thesis using low4 c4 arr(2,4,5) fresh
                  by (intro goal) (simp_all add: deref_def)
              qed
            qed
          qed
        qed
      qed
    qed
  qed
qed

theorem add_echoes_keeps_inputs_witness:
  "samples_at \<lparr>samples_at = 0, spacing = 1, start = 0\<rparr>
     < length (arrays \<lparr>arrays = [[1, 1], [1, 1]], console = []\<rparr>) \<and>
   samples_at \<lparr>samples_at = 1, spacing = 1, start = 0\<rparr>
     < length (arrays \<lparr>arrays = [[1, 1], [1, 1]], console = []\<rparr>) \<and>
   arrays (fst (add_echoes_st (\<lambda>a b. Inr [0]) \<lparr>samples_at = 0, spacing = 1, start = 0\<rparr>
                  \<lparr>samples_at = 1, spacing = 1, start = 0\<rparr> 0 1 1 2 1 (1 / 2) None
                  \<lparr>arrays = [[1, 1], [1, 1]], console = []\<rparr>)) ! 0 = [1, 1] \<and>
   arrays (fst (add_echoes_st (\<lambda>a b. Inr [0]) \<lparr>samples_at = 0, spacing = 1, start = 0\<rparr>
                  \<lparr>samples_at = 1, spacing = 1, start = 0\<rparr> 0 1 1 2 1 (1 / 2) None
                  \<lparr>arrays = [[1, 1], [1, 1]], console = []\<rparr>)) ! 1 = [1, 1]"
proof -
  let ?s = "\<lparr>arrays = [[1, 1], [1, 1 :: real]], console = []\<rparr>"
  let ?hp = "\<lparr>samples_at = 0, spacing = 1, start = 0\<rparr>"
  let ?hc = "\<lparr>samples_at = 1, spacing = 1, start = 0\<rparr>"
  let ?run = "add_echoes_st (\<lambda>a b. Inr [0]) ?hp ?hc 0 1 1 2 1 (1 / 2) None ?s"
  have run: "?run = (fst ?run, snd ?run)" by simp
  have vp: "samples_at ?hp < length (arrays ?s)" and vc: "samples_at ?hc < length (arrays ?s)"
    by simp_all
  have "\<forall>a<length (arrays ?s). arrays (fst ?run) ! a = arrays ?s ! a"
    using add_echoes_keeps_inputs [OF run vp vc] by blast
  then have "arrays (fst ?run) ! 0 = arrays ?s ! 0" "arrays (fst ?run) ! 1 = arrays ?s ! 1"
    by simp_all
  then show ?thesis by simp
qed

end
